theory Spec2Isabelle
  imports Main "HOL-Library.Word"
begin

section \<open>Master-side replication (tendisplus/replication/mpov.cpp)\<close>

text \<open>
  A shallow embedding of \<^verbatim>\<open>ReplManager::masterSendBinlog\<close>,
  \<^verbatim>\<open>ReplManager::masterPushRoutine\<close>, \<^verbatim>\<open>ReplManager::registerIncrSync\<close> and
  \<^verbatim>\<open>ReplManager::supplyFullSyncRoutine\<close>. Machine integers keep their width:
  \<^verbatim>\<open>uint64_t\<close> and \<^verbatim>\<open>size_t\<close> are \<^typ>\<open>64 word\<close>, \<^verbatim>\<open>uint32_t\<close> is
  \<^typ>\<open>32 word\<close>, so that \<^verbatim>\<open>binlogPos+1\<close>, \<^verbatim>\<open>cnt += 1\<close> and
  \<^verbatim>\<open>estimateSize += ...\<close> wrap as they do in the program.
\<close>

subsection \<open>Status, Expected and the binlog rows\<close>

datatype ErrorCodes = ERR_OK | ERR_NETWORK | ERR_TIMEOUT | ERR_INTERNAL | ERR_EXHAUST

record Status =
  code :: ErrorCodes
  msg :: string

definition ok :: "Status \<Rightarrow> bool" where
  "ok s = (code s = ERR_OK)"

definition okStatus :: Status where
  "okStatus = \<lparr>code = ERR_OK, msg = []\<rparr>"

text \<open>\<^verbatim>\<open>Expected<T>\<close>: either a failed status (\<open>Inl\<close>) or a value (\<open>Inr\<close>).\<close>

type_synonym 'a Expected = "Status + 'a"

text \<open>
  One binlog row. Of \<^verbatim>\<open>ReplLogKey\<close> the routine reads \<^verbatim>\<open>getTxnId()\<close>, of
  \<^verbatim>\<open>ReplLogValue\<close> it reads \<^verbatim>\<open>getOpValue()\<close>; a string is a list of bytes.
\<close>

record ReplLog =
  txnId :: "64 word"
  opValue :: string

text \<open>
  A \<^verbatim>\<open>BinlogCursor\<close> is the sequence of rows that successive calls of
  \<^verbatim>\<open>next()\<close> return, and the failed status that the call after the last row
  returns (\<open>ERR_EXHAUST\<close> at the end of the log, any other code for a read error).
\<close>

type_synonym BinlogCursor = "ReplLog list \<times> Status"

text \<open>A \<^verbatim>\<open>Transaction\<close> offers \<^verbatim>\<open>createBinlogCursor(begin)\<close>.\<close>

type_synonym Transaction = "64 word \<Rightarrow> BinlogCursor"

subsection \<open>The blocking client\<close>

text \<open>
  The socket is a record of what has been written to it (with the timeout, in seconds,
  of each call) together with the scripted outcomes of the calls still to come: the
  statuses of the next writes and the results of the next \<^verbatim>\<open>readLine\<close> calls.
  A write beyond the script succeeds; a read beyond the script times out.
\<close>

datatype NetEvent = WriteLine string nat | WriteData string nat

record BlockingTcpClient =
  written :: "NetEvent list"
  writeResults :: "Status list"
  readResults :: "string Expected list"

definition nextWrite :: "NetEvent \<Rightarrow> BlockingTcpClient \<Rightarrow> Status \<times> BlockingTcpClient" where
  "nextWrite ev c =
     (case writeResults c of
        [] \<Rightarrow> (okStatus, c\<lparr>written := written c @ [ev]\<rparr>)
      | s # ss \<Rightarrow> (s, c\<lparr>written := written c @ [ev], writeResults := ss\<rparr>))"

definition writeLine :: "string \<Rightarrow> nat \<Rightarrow> BlockingTcpClient \<Rightarrow> Status \<times> BlockingTcpClient" where
  "writeLine l secs c = nextWrite (WriteLine l secs) c"

definition writeData :: "string \<Rightarrow> nat \<Rightarrow> BlockingTcpClient \<Rightarrow> Status \<times> BlockingTcpClient" where
  "writeData d secs c = nextWrite (WriteData d secs) c"

definition readLine :: "nat \<Rightarrow> BlockingTcpClient \<Rightarrow> string Expected \<times> BlockingTcpClient" where
  "readLine secs c =
     (case readResults c of
        [] \<Rightarrow> (Inl \<lparr>code = ERR_TIMEOUT, msg = []\<rparr>, c)
      | r # rs \<Rightarrow> (r, c\<lparr>readResults := rs\<rparr>))"

subsection \<open>Wire format\<close>

text \<open>\<^verbatim>\<open>std::to_string\<close> on an unsigned value: its decimal digits.\<close>

fun to_string :: "nat \<Rightarrow> string" where
  "to_string n =
     (if n < 10 then [char_of (48 + n)]
      else to_string (n div 10) @ [char_of (48 + n mod 10)])"

declare to_string.simps [simp del]

definition CRLF :: string where
  "CRLF = [CHR 0x0D, CHR 0x0A]"

text \<open>
  Modelled from the spec: \<^verbatim>\<open>Command::fmtMultiBulkLen\<close>, declared in
  \<^verbatim>\<open>tendisplus/commands/command.h\<close> and defined outside this file. The wire
  codec section gives the head of a frame of \<open>N\<close> rows as \<^verbatim>\<open>*{2+2N}\<close>, ended
  by CR LF.
\<close>

definition fmtMultiBulkLen :: "nat \<Rightarrow> string" where
  "fmtMultiBulkLen l = CHR ''*'' # to_string l @ CRLF"

text \<open>
  Modelled from the spec: \<^verbatim>\<open>Command::fmtBulk\<close>, one bulk item: the line
  \<^verbatim>\<open>${len}\<close>, then the bytes, each ended by CR LF.
\<close>

definition fmtBulk :: "string \<Rightarrow> string" where
  "fmtBulk s = CHR ''$'' # to_string (length s) @ CRLF @ s @ CRLF"

text \<open>
  Lines 148-156: the frame of a batch. \<^verbatim>\<open>ReplLog::encode()\<close> is opaque to this
  file (it lives in the storage layer), so the encoder is a parameter \<open>enc\<close>.
\<close>

definition fmtBinlogs :: "(ReplLog \<Rightarrow> string \<times> string) \<Rightarrow> 32 word \<Rightarrow> ReplLog list \<Rightarrow> string" where
  "fmtBinlogs enc dstStoreId binlogs =
     fmtMultiBulkLen (length binlogs * 2 + 2)
     @ fmtBulk ''applybinlogs''
     @ fmtBulk (to_string (unat dstStoreId))
     @ concat (map (\<lambda>v. fmtBulk (fst (enc v)) @ fmtBulk (snd (enc v))) binlogs)"

text \<open>Lines 158-163: the timeout chosen from the size of the frame.\<close>

definition writeSecs :: "64 word \<Rightarrow> nat" where
  "writeSecs sz =
     (if sz > 1024 * 1024 then 2
      else if sz > 1024 * 1024 * 10 then 4
      else 1)"

subsection \<open>The batching loop of masterSendBinlog\<close>

definition suggestBatch :: "32 word" where
  "suggestBatch = 64"

definition suggestBytes :: "64 word" where
  "suggestBytes = 16 * 1024 * 1024"

text \<open>
  Lines 122-146. The arguments after the rows still to come from the cursor are the
  cursor's final status and the loop variables \<^verbatim>\<open>binlogs\<close>, \<^verbatim>\<open>cnt\<close>,
  \<^verbatim>\<open>nowId\<close> and \<^verbatim>\<open>estimateSize\<close>. The result is the failed status of the
  early \<^verbatim>\<open>return\<close>, or \<^verbatim>\<open>binlogs\<close> as it is when the loop is left by
  \<^verbatim>\<open>break\<close>.
\<close>

fun batchLoop ::
  "ReplLog list \<Rightarrow> Status \<Rightarrow> ReplLog list \<Rightarrow> 32 word \<Rightarrow> 64 word \<Rightarrow> 64 word
     \<Rightarrow> ReplLog list Expected" where
  "batchLoop [] fin binlogs cnt nowId estimateSize =
     (if code fin = ERR_EXHAUST then Inr binlogs else Inl fin)"
| "batchLoop (explog # rest) fin binlogs cnt nowId estimateSize =
     (let cnt' = cnt + 1;
          estimateSize' = estimateSize + of_nat (length (opValue explog))
      in if nowId = 0 \<or> nowId \<noteq> txnId explog then
           if cnt' \<ge> suggestBatch \<or> estimateSize' \<ge> suggestBytes then Inr binlogs
           else batchLoop rest fin (binlogs @ [explog]) cnt' (txnId explog) estimateSize'
         else batchLoop rest fin (binlogs @ [explog]) cnt' nowId estimateSize')"

subsection \<open>The store\<close>

text \<open>
  What the routines use of a \<^verbatim>\<open>KVStore\<close>: \<^verbatim>\<open>isRunning()\<close>,
  \<^verbatim>\<open>backup()\<close>, \<^verbatim>\<open>releaseBackup()\<close>, \<^verbatim>\<open>backupDir()\<close> and
  \<^verbatim>\<open>createTransaction()\<close>, each given by the value it returns.
\<close>

type_synonym BackupInfo = "(string \<times> 64 word) list"

record KVStore =
  storeIsRunning :: bool
  backup :: "BackupInfo Expected"
  releaseBackup :: Status
  backupDir :: string
  createTransaction :: "Transaction Expected"

subsection \<open>masterSendBinlog\<close>

text \<open>
  Lines 101-182. \<open>getInstanceById\<close> is the segment manager's lookup; a null store
  fails \<^verbatim>\<open>INVARIANT\<close>, which aborts the process: the result \<open>None\<close>. Otherwise
  the result is the returned \<^verbatim>\<open>Expected<uint64_t>\<close> and the client after the
  calls made on it.
\<close>

definition masterSendBinlog ::
  "(ReplLog \<Rightarrow> string \<times> string) \<Rightarrow> (32 word \<Rightarrow> KVStore option) \<Rightarrow> BlockingTcpClient
     \<Rightarrow> 32 word \<Rightarrow> 32 word \<Rightarrow> 64 word \<Rightarrow> (64 word Expected \<times> BlockingTcpClient) option" where
  "masterSendBinlog enc getInstanceById client storeId dstStoreId binlogPos =
     (case getInstanceById storeId of
        None \<Rightarrow> None
      | Some store \<Rightarrow>
          (case createTransaction store of
             Inl st \<Rightarrow> Some (Inl st, client)
           | Inr txn \<Rightarrow>
               (let cursor = txn (binlogPos + 1) in
                case batchLoop (fst cursor) (snd cursor) [] 0 0 0 of
                  Inl st \<Rightarrow> Some (Inl st, client)
                | Inr binlogs \<Rightarrow>
                    (let stingtoWrite = fmtBinlogs enc dstStoreId binlogs;
                         secs = writeSecs (of_nat (length stingtoWrite));
                         (s, client1) = writeData stingtoWrite secs client
                     in if \<not> ok s then Some (Inl s, client1)
                        else
                          (let (exptOK, client2) = readLine secs client1 in
                           case exptOK of
                             Inl st \<Rightarrow> Some (Inl st, client2)
                           | Inr line \<Rightarrow>
                               if line \<noteq> ''+OK'' then
                                 Some (Inl \<lparr>code = ERR_NETWORK, msg = ''bad return string''\<rparr>,
                                       client2)
                               else if length binlogs = 0 then Some (Inr binlogPos, client2)
                               else Some (Inr (txnId (binlogs ! (length binlogs - 1))),
                                          client2))))))"

subsection \<open>The manager's tables and masterPushRoutine\<close>

text \<open>Instants of \<^verbatim>\<open>SCLOCK\<close> are counted in nanoseconds.\<close>

definition seconds :: "nat \<Rightarrow> nat" where
  "seconds n = n * 1000000000"

record MPovStatus =
  isRunning :: bool
  dstStoreId :: "32 word"
  binlogPos :: "64 word"
  nextSchedTime :: nat
  client :: BlockingTcpClient
  clientId :: "64 word"

text \<open>
  \<^verbatim>\<open>_pushStatus\<close>, \<^verbatim>\<open>_firstBinlogId\<close> (both indexed by the store id) and
  \<^verbatim>\<open>_clientIdGen\<close>, the fields that the mutex protects.
\<close>

record ReplManager =
  pushStatus :: "nat \<Rightarrow> (64 word \<rightharpoonup> MPovStatus)"
  firstBinlogId :: "nat \<Rightarrow> 64 word"
  clientIdGen :: "64 word"

definition setEntry :: "nat \<Rightarrow> 64 word \<Rightarrow> MPovStatus option \<Rightarrow> ReplManager \<Rightarrow> ReplManager" where
  "setEntry sid cid e m = m\<lparr>pushStatus := (pushStatus m)(sid := (pushStatus m sid)(cid := e))\<rparr>"

text \<open>
  Lines 54-65, the scope guard of \<^verbatim>\<open>masterPushRoutine\<close>, run when the routine
  is left. \<open>None\<close>: \<^verbatim>\<open>INVARIANT(isRunning)\<close> failed.
\<close>

definition pushGuard :: "nat \<Rightarrow> 32 word \<Rightarrow> 64 word \<Rightarrow> ReplManager \<Rightarrow> ReplManager option" where
  "pushGuard nextSched storeId cid m =
     (case pushStatus m (unat storeId) cid of
        None \<Rightarrow> Some m
      | Some e \<Rightarrow>
          if \<not> isRunning e then None
          else Some (setEntry (unat storeId) cid
                       (Some (e\<lparr>isRunning := False, nextSchedTime := nextSched\<rparr>)) m))"

text \<open>
  Lines 52-99. \<open>now0\<close> is the clock when the routine starts, \<open>now1\<close> the clock
  after \<^verbatim>\<open>masterSendBinlog\<close> has returned. The entry owns its socket, so the
  calls made on the socket show in the entry. \<open>None\<close>: an \<^verbatim>\<open>INVARIANT\<close>
  failed.
\<close>

definition masterPushRoutine ::
  "(ReplLog \<Rightarrow> string \<times> string) \<Rightarrow> (32 word \<Rightarrow> KVStore option) \<Rightarrow> nat \<Rightarrow> nat
     \<Rightarrow> 32 word \<Rightarrow> 64 word \<Rightarrow> ReplManager \<Rightarrow> ReplManager option" where
  "masterPushRoutine enc getInstanceById now0 now1 storeId cid m =
     (case pushStatus m (unat storeId) cid of
        None \<Rightarrow> pushGuard (now0 + seconds 1) storeId cid m
      | Some e \<Rightarrow>
          (case masterSendBinlog enc getInstanceById (client e) storeId (dstStoreId e)
                  (binlogPos e) of
             None \<Rightarrow> None
           | Some (Inl st, c) \<Rightarrow> pushGuard now0 storeId cid (setEntry (unat storeId) cid None m)
           | Some (Inr newPos, c) \<Rightarrow>
               pushGuard (if newPos > binlogPos e then now1 else now1 + seconds 1) storeId cid
                 (setEntry (unat storeId) cid (Some (e\<lparr>binlogPos := newPos, client := c\<rparr>)) m)))"

subsection \<open>registerIncrSync\<close>

text \<open>
  Lines 206-215, the \<^verbatim>\<open>try\<close> block. \<open>stoul\<close> is the library's parser, a
  parameter: \<open>Inl\<close> carries the \<^verbatim>\<open>what()\<close> of the exception it throws. The
  first exception leaves the block.
\<close>

definition parseOpts ::
  "(string \<Rightarrow> string + 64 word) \<Rightarrow> string \<Rightarrow> string \<Rightarrow> string
     \<Rightarrow> string + 64 word \<times> 64 word \<times> 64 word" where
  "parseOpts stoul storeIdArg dstStoreIdArg binlogPosArg =
     (case stoul storeIdArg of
        Inl what \<Rightarrow> Inl what
      | Inr storeId \<Rightarrow>
          (case stoul dstStoreIdArg of
             Inl what \<Rightarrow> Inl what
           | Inr dstId \<Rightarrow>
               (case stoul binlogPosArg of
                  Inl what \<Rightarrow> Inl what
                | Inr pos \<Rightarrow> Inr (storeId, dstId, pos))))"

text \<open>Lines 259-268: the entry that a registration creates.\<close>

definition newMPovStatus ::
  "64 word \<Rightarrow> 64 word \<Rightarrow> nat \<Rightarrow> BlockingTcpClient \<Rightarrow> 64 word \<Rightarrow> MPovStatus" where
  "newMPovStatus dstId pos now c cid =
     \<lparr>isRunning = False, dstStoreId = ucast dstId, binlogPos = pos, nextSchedTime = now,
      client = c, clientId = cid\<rparr>"

text \<open>
  Lines 195-273. \<open>INSTANCE_NUM\<close> is the constant of \<^verbatim>\<open>KVStore\<close>, declared
  outside this file and a parameter here. The routine takes the mutex twice;
  \<open>others\<close> is what other threads do to the tables between the two critical
  sections. The result is the tables when the routine is left and the socket after the
  calls made on it.
\<close>

definition registerIncrSync ::
  "(string \<Rightarrow> string + 64 word) \<Rightarrow> 64 word \<Rightarrow> nat \<Rightarrow> (ReplManager \<Rightarrow> ReplManager)
     \<Rightarrow> BlockingTcpClient \<Rightarrow> string \<Rightarrow> string \<Rightarrow> string \<Rightarrow> ReplManager
     \<Rightarrow> ReplManager \<times> BlockingTcpClient" where
  "registerIncrSync stoul INSTANCE_NUM now others sock storeIdArg dstStoreIdArg binlogPosArg m =
     (case parseOpts stoul storeIdArg dstStoreIdArg binlogPosArg of
        Inl what \<Rightarrow> (m, snd (writeLine (''-ERR parse opts failed:'' @ what) 1 sock))
      | Inr (storeId, dstId, pos) \<Rightarrow>
          if storeId \<ge> INSTANCE_NUM \<or> dstId \<ge> INSTANCE_NUM then
            (m, snd (writeLine ''-ERR invalid storeId'' 1 sock))
          else
            (let firstPos = firstBinlogId m (unat storeId) in
             if firstPos > pos then (m, snd (writeLine ''-ERR invalid binlogPos'' 1 sock))
             else
               (let c1 = snd (writeLine ''+OK'' 1 sock);
                    (exptPong, c2) = readLine 1 c1
                in case exptPong of
                     Inl st \<Rightarrow> (m, c2)
                   | Inr line \<Rightarrow>
                       if line \<noteq> ''+PONG'' then (m, c2)
                       else
                         (let m1 = others m in
                          if firstBinlogId m1 (unat storeId) > pos then (m1, c2)
                          else
                            (let cid = clientIdGen m1 in
                             (setEntry (unat storeId) cid
                                (Some (newMPovStatus dstId pos now c2 cid))
                                (m1\<lparr>clientIdGen := cid + 1\<rparr>),
                              c2))))))"

subsection \<open>supplyFullSyncRoutine\<close>

text \<open>
  The routine returns nothing; its exits are told apart here by the place where it is
  left (each but the last two logs or replies something different).
\<close>

datatype FullSyncExit =
    StoreNotRunning | BackupFailed
  | ManifestWriteFailed | FnameWriteFailed | OpenFailed | ReadFailed | BulkWriteFailed
  | ReplyFailed | ReplyRead

text \<open>\<^verbatim>\<open>readBuf.reserve(20MB)\<close>: the capacity that bounds one chunk.\<close>

definition readBufCapacity :: nat where
  "readBufCapacity = 20 * 1024 * 1024"

text \<open>
  Lines 331-346, the chunk loop for one file. \<open>myfile\<close> is what is left to read of
  the open file; a read of more bytes than are left sets the stream's fail bit. The
  result is the exit taken by a \<^verbatim>\<open>return\<close> inside the loop, or \<open>None\<close> when
  the loop ran to its end.
\<close>

function streamFile ::
  "string \<Rightarrow> nat \<Rightarrow> BlockingTcpClient \<Rightarrow> FullSyncExit option \<times> BlockingTcpClient" where
  "streamFile myfile remain c =
     (if remain = 0 then (None, c)
      else if length myfile < min remain readBufCapacity then (Some ReadFailed, c)
      else if \<not> ok (fst (writeData (take (min remain readBufCapacity) myfile) 1 c)) then
        (Some BulkWriteFailed, snd (writeData (take (min remain readBufCapacity) myfile) 1 c))
      else streamFile (drop (min remain readBufCapacity) myfile)
             (remain - min remain readBufCapacity)
             (snd (writeData (take (min remain readBufCapacity) myfile) 1 c)))"
  by pat_completeness auto
termination
  by (relation "measure (\<lambda>(myfile, remain, c). remain)") (auto simp: readBufCapacity_def)

declare streamFile.simps [simp del]

text \<open>
  Lines 317-347, the loop over the file list. \<open>fs\<close> maps a path to the content
  of the file there; \<open>None\<close> when it cannot be opened.
\<close>

fun streamFiles ::
  "(string \<Rightarrow> string option) \<Rightarrow> string \<Rightarrow> BackupInfo \<Rightarrow> BlockingTcpClient
     \<Rightarrow> FullSyncExit option \<times> BlockingTcpClient" where
  "streamFiles fs dir [] c = (None, c)"
| "streamFiles fs dir (fileInfo # rest) c =
     (let (s, c1) = writeLine (fst fileInfo) 1 c in
      if \<not> ok s then (Some FnameWriteFailed, c1)
      else
        (case fs (dir @ ''/'' @ fst fileInfo) of
           None \<Rightarrow> (Some OpenFailed, c1)
         | Some myfile \<Rightarrow>
             (case streamFile myfile (unat (snd fileInfo)) c1 of
                (Some ex, c2) \<Rightarrow> (Some ex, c2)
              | (None, c2) \<Rightarrow> streamFiles fs dir rest c2)))"

text \<open>
  Lines 300-356, the part of the routine that runs while the scope guard is armed.
  \<open>json\<close> is the rapidjson writer applied to the file list, a parameter.
\<close>

definition streamBackup ::
  "(BackupInfo \<Rightarrow> string) \<Rightarrow> (string \<Rightarrow> string option) \<Rightarrow> KVStore \<Rightarrow> BackupInfo
     \<Rightarrow> BlockingTcpClient \<Rightarrow> FullSyncExit \<times> BlockingTcpClient" where
  "streamBackup json fs store bkInfo c =
     (let (s, c1) = writeLine (json bkInfo) 1 c in
      if \<not> ok s then (ManifestWriteFailed, c1)
      else
        (case streamFiles fs (backupDir store) bkInfo c1 of
           (Some ex, c2) \<Rightarrow> (ex, c2)
         | (None, c2) \<Rightarrow>
             (let (reply, c3) = readLine 1 c2 in
              case reply of Inl st \<Rightarrow> (ReplyFailed, c3) | Inr line \<Rightarrow> (ReplyRead, c3))))"

text \<open>
  Lines 275-357. \<open>toString\<close> is \<^verbatim>\<open>Status::toString\<close>, a parameter. The
  result is the exit taken, the socket after the calls made on it and the number of
  calls of \<^verbatim>\<open>releaseBackup()\<close>: the returns before line 292 make none, and the
  guard declared there makes one when the function is left, whichever way.
  \<open>None\<close>: the \<^verbatim>\<open>INVARIANT\<close> on the store failed.
\<close>

definition supplyFullSyncRoutine ::
  "(Status \<Rightarrow> string) \<Rightarrow> (BackupInfo \<Rightarrow> string) \<Rightarrow> (string \<Rightarrow> string option)
     \<Rightarrow> (32 word \<Rightarrow> KVStore option) \<Rightarrow> BlockingTcpClient \<Rightarrow> 32 word
     \<Rightarrow> (FullSyncExit \<times> BlockingTcpClient \<times> nat) option" where
  "supplyFullSyncRoutine toString json fs getInstanceById c storeId =
     (case getInstanceById storeId of
        None \<Rightarrow> None
      | Some store \<Rightarrow>
          if \<not> storeIsRunning store then
            Some (StoreNotRunning, snd (writeLine ''-ERR store is not running'' 1 c), 0)
          else
            (case backup store of
               Inl st \<Rightarrow>
                 Some (BackupFailed,
                       snd (writeLine (''-ERR backup failed:'' @ toString st) 1 c), 0)
             | Inr bkInfo \<Rightarrow>
                 (let (ex, c1) = streamBackup json fs store bkInfo c;
                      releaseCalls = 1
                  in Some (ex, c1, releaseCalls))))"

subsection \<open>A store given by its binlog\<close>

definition exhausted :: Status where
  "exhausted = \<lparr>code = ERR_EXHAUST, msg = []\<rparr>"

text \<open>
  Modelled from the spec: \<^verbatim>\<open>Transaction::createBinlogCursor\<close> and the cursor's
  \<^verbatim>\<open>next()\<close> belong to the storage engine, outside this file. By
  the spec the binlog is an ordered log, the cursor begins at the given id and
  delivers the rows from there on in the order of the log, then signals exhaustion.
\<close>

definition createBinlogCursor :: "ReplLog list \<Rightarrow> Transaction" where
  "createBinlogCursor binlog begin = (filter (\<lambda>r. begin \<le> txnId r) binlog, exhausted)"

definition binlogStore :: "ReplLog list \<Rightarrow> KVStore" where
  "binlogStore binlog =
     \<lparr>storeIsRunning = True, backup = Inr [], releaseBackup = okStatus, backupDir = [],
      createTransaction = Inr (createBinlogCursor binlog)\<rparr>"

subsection \<open>Peers, encoders and binlogs used in the scenarios\<close>

text \<open>A peer that accepts every write and answers with the given lines.\<close>

definition peer :: "string list \<Rightarrow> BlockingTcpClient" where
  "peer replies = \<lparr>written = [], writeResults = [], readResults = map Inr replies\<rparr>"

text \<open>
  An encoder for the closed examples, standing in for \<^verbatim>\<open>ReplLog::encode\<close>: the
  key is the transaction id in decimal, the value is the payload.
\<close>

definition plainEncode :: "ReplLog \<Rightarrow> string \<times> string" where
  "plainEncode r = (to_string (unat (txnId r)), opValue r)"

text \<open>What line 164 writes for a batch: the frame, with the timeout of lines 158-163.\<close>

definition sentFrame :: "(ReplLog \<Rightarrow> string \<times> string) \<Rightarrow> 32 word \<Rightarrow> ReplLog list \<Rightarrow> NetEvent" where
  "sentFrame enc dst binlogs =
     WriteData (fmtBinlogs enc dst binlogs)
       (writeSecs (of_nat (length (fmtBinlogs enc dst binlogs))))"

text \<open>The payload bytes of some rows, summed as \<^verbatim>\<open>estimateSize\<close> sums them.\<close>

definition payloadBytes :: "ReplLog list \<Rightarrow> 64 word" where
  "payloadBytes rows = sum_list (map (\<lambda>r. of_nat (length (opValue r))) rows)"

text \<open>Scenario C: \<open>n\<close> transactions of one row each, ids \<open>1..n\<close>, one byte of payload.\<close>

definition singleRowTxns :: "nat \<Rightarrow> ReplLog list" where
  "singleRowTxns n = map (\<lambda>i. \<lparr>txnId = of_nat i, opValue = ''x''\<rparr>) [1..<Suc n]"

text \<open>Scenario A: two rows of transaction 10, one row of transaction 11.\<close>

definition steadyBinlog :: "ReplLog list" where
  "steadyBinlog =
     [\<lparr>txnId = 10, opValue = ''a''\<rparr>, \<lparr>txnId = 10, opValue = ''b''\<rparr>,
      \<lparr>txnId = 11, opValue = ''c''\<rparr>]"

text \<open>Scenario D: one transaction, id 5, of three rows of 10 MiB each.\<close>

definition oversizeTxn :: "ReplLog list" where
  "oversizeTxn =
     [\<lparr>txnId = 5, opValue = replicate (10 * 1024 * 1024) (CHR ''x'')\<rparr>,
      \<lparr>txnId = 5, opValue = replicate (10 * 1024 * 1024) (CHR ''y'')\<rparr>,
      \<lparr>txnId = 5, opValue = replicate (10 * 1024 * 1024) (CHR ''z'')\<rparr>]"

text \<open>A transaction with id 0 whose second row alone reaches \<^verbatim>\<open>suggestBytes\<close>.\<close>

definition splitTxn :: "ReplLog list" where
  "splitTxn =
     [\<lparr>txnId = 0, opValue = ''a''\<rparr>,
      \<lparr>txnId = 0, opValue = replicate (16 * 1024 * 1024) (CHR ''b'')\<rparr>]"

text \<open>A binlog whose only row has the largest id a \<^verbatim>\<open>uint64_t\<close> holds.\<close>

definition lastIdBinlog :: "ReplLog list" where
  "lastIdBinlog = [\<lparr>txnId = 18446744073709551615, opValue = ''a''\<rparr>]"

text \<open>A segment manager whose instance, whatever the id, is the given store.\<close>

definition segmentOf :: "KVStore \<Rightarrow> 32 word \<Rightarrow> KVStore option" where
  "segmentOf store storeId = Some store"

text \<open>The tables with no replica registered and nothing truncated.\<close>

definition noEntries :: ReplManager where
  "noEntries = \<lparr>pushStatus = (\<lambda>sid. Map.empty), firstBinlogId = (\<lambda>sid. 0), clientIdGen = 0\<rparr>"

text \<open>Scenario B: the binlog of every store is truncated up to id 100.\<close>

definition staleTables :: ReplManager where
  "staleTables = \<lparr>pushStatus = (\<lambda>sid. Map.empty), firstBinlogId = (\<lambda>sid. 100), clientIdGen = 0\<rparr>"

text \<open>
  An entry as a registration for destination store 0 at instant 0 creates it, once the
  scheduler has set \<^verbatim>\<open>isRunning\<close> to dispatch \<^verbatim>\<open>masterPushRoutine\<close> for it.
\<close>

definition dispatched :: "64 word \<Rightarrow> BlockingTcpClient \<Rightarrow> 64 word \<Rightarrow> MPovStatus" where
  "dispatched pos c cid = (newMPovStatus 0 pos 0 c cid)\<lparr>isRunning := True\<rparr>"

text \<open>The position recorded for a replica, if it is registered.\<close>

definition entryPos :: "nat \<Rightarrow> 64 word \<Rightarrow> ReplManager \<Rightarrow> 64 word option" where
  "entryPos sid cid m = map_option binlogPos (pushStatus m sid cid)"

text \<open>
  Successive successful push iterations for one replica. \<^verbatim>\<open>masterPushRoutine\<close>
  hands the entry's socket and position to \<^verbatim>\<open>masterSendBinlog\<close> (lines 76-81)
  and stores the position it returns in the entry (line 92), where the next iteration
  reads it. \<open>None\<close> when an iteration fails, which erases the entry (line 88).
\<close>

fun pushIterations ::
  "(ReplLog \<Rightarrow> string \<times> string) \<Rightarrow> (32 word \<Rightarrow> KVStore option) \<Rightarrow> 32 word \<Rightarrow> 32 word \<Rightarrow> nat
     \<Rightarrow> BlockingTcpClient \<Rightarrow> 64 word \<Rightarrow> (64 word \<times> BlockingTcpClient) option" where
  "pushIterations enc gi sid dst 0 c pos = Some (pos, c)"
| "pushIterations enc gi sid dst (Suc n) c pos =
     (case masterSendBinlog enc gi c sid dst pos of
        Some (Inr newPos, c') \<Rightarrow> pushIterations enc gi sid dst n c' newPos
      | _ \<Rightarrow> None)"

text \<open>\<^verbatim>\<open>stoul\<close> on the arguments that the scenarios send.\<close>

definition scenarioStoul :: "string \<Rightarrow> string + 64 word" where
  "scenarioStoul s =
     (if s = ''0'' then Inr 0 else if s = ''9'' then Inr 9 else if s = ''50'' then Inr 50
      else Inl ''stoul'')"

text \<open>
  The conditions under which a registration is to create an entry, as the
  specification words them: the three arguments parse, both store ids are below
  \<open>INSTANCE_NUM\<close>, \<^verbatim>\<open>firstBinlogId[storeId]\<close> is at most the requested position
  at the pre-check and again at the re-check under the mutex, and the line the slave
  sends after the master's \<^verbatim>\<open>+OK\<close> is exactly \<^verbatim>\<open>+PONG\<close>.
\<close>

definition registrationConditions ::
  "(string \<Rightarrow> string + 64 word) \<Rightarrow> 64 word \<Rightarrow> (ReplManager \<Rightarrow> ReplManager)
     \<Rightarrow> BlockingTcpClient \<Rightarrow> string \<Rightarrow> string \<Rightarrow> string \<Rightarrow> ReplManager \<Rightarrow> bool" where
  "registrationConditions stoul INSTANCE_NUM others sock storeIdArg dstStoreIdArg binlogPosArg m =
     (case parseOpts stoul storeIdArg dstStoreIdArg binlogPosArg of
        Inl what \<Rightarrow> False
      | Inr (storeId, dstId, pos) \<Rightarrow>
          storeId < INSTANCE_NUM \<and> dstId < INSTANCE_NUM
          \<and> firstBinlogId m (unat storeId) \<le> pos
          \<and> firstBinlogId (others m) (unat storeId) \<le> pos
          \<and> (case readResults sock of
                Inr line # rs \<Rightarrow> line = ''+PONG''
              | _ \<Rightarrow> False))"

text \<open>
  Scenario E. The manifest is written as the rapidjson writer writes an object whose
  keys need no escaping; the store's backup has two files, found under its backup
  directory.
\<close>

definition jsonMember :: "string \<times> 64 word \<Rightarrow> string" where
  "jsonMember kv = CHR 0x22 # fst kv @ [CHR 0x22, CHR '':''] @ to_string (unat (snd kv))"

fun jsonMembers :: "BackupInfo \<Rightarrow> string" where
  "jsonMembers [] = []"
| "jsonMembers [kv] = jsonMember kv"
| "jsonMembers (kv # rest) = jsonMember kv @ '','' @ jsonMembers rest"

definition manifestJson :: "BackupInfo \<Rightarrow> string" where
  "manifestJson files = ''{'' @ jsonMembers files @ ''}''"

definition backupStore :: KVStore where
  "backupStore =
     \<lparr>storeIsRunning = True,
      backup = Inr [(''MANIFEST'', 12), (''000001.sst'', 4096)],
      releaseBackup = okStatus, backupDir = ''/backup'',
      createTransaction = Inl \<lparr>code = ERR_INTERNAL, msg = []\<rparr>\<rparr>"

definition backupFiles :: "string \<Rightarrow> string option" where
  "backupFiles path =
     (if path = ''/backup/MANIFEST'' then Some (replicate 12 (CHR ''m''))
      else if path = ''/backup/000001.sst'' then Some (replicate 4096 (CHR ''s''))
      else None)"

section \<open>Properties\<close>

subsection \<open>The batching loop\<close>

lemma batchLoop_acc:
  "batchLoop rows fin acc cnt nowId est =
     (case batchLoop rows fin [] cnt nowId est of Inl st \<Rightarrow> Inl st | Inr b \<Rightarrow> Inr (acc @ b))"
proof (induction rows arbitrary: acc cnt nowId est)
  case Nil
  then show ?case by simp
next
  case (Cons r rows)
  show ?case
    by (simp add: Let_def Cons.IH [of "acc @ [r]"] Cons.IH [of "[r]"] split: sum.splits)
qed

lemma batchLoop_error:
  "batchLoop rows fin acc cnt nowId est = Inl st \<Longrightarrow> st = fin \<and> code fin \<noteq> ERR_EXHAUST"
  by (induction rows arbitrary: acc cnt nowId est) (auto simp: Let_def split: if_splits)

lemma batchLoop_cut:
  "batchLoop rows fin [] cnt nowId est = Inr b \<Longrightarrow>
   \<exists>rest. rows = b @ rest
     \<and> (rest = [] \<longrightarrow> code fin = ERR_EXHAUST)
     \<and> (rest \<noteq> [] \<longrightarrow>
          (let cur = (if b = [] then nowId else txnId (last b)) in
             cur = 0 \<or> cur \<noteq> txnId (hd rest))
          \<and> (cnt + of_nat (length b) + 1 \<ge> suggestBatch
             \<or> est + payloadBytes b + of_nat (length (opValue (hd rest))) \<ge> suggestBytes))"
proof (induction rows arbitrary: b cnt nowId est)
  case Nil
  then show ?case by (simp split: if_splits)
next
  case (Cons r rows)
  let ?cnt = "cnt + 1"
  let ?est = "est + of_nat (length (opValue r))"
  show ?case
  proof (cases "(nowId = 0 \<or> nowId \<noteq> txnId r) \<and> (?cnt \<ge> suggestBatch \<or> ?est \<ge> suggestBytes)")
    case True
    with Cons.prems have "b = []" by (simp add: Let_def)
    with True show ?thesis by (simp add: payloadBytes_def)
  next
    case False
    then have step: "batchLoop (r # rows) fin [] cnt nowId est
        = batchLoop rows fin [r] ?cnt (txnId r) ?est"
      by (auto simp: Let_def)
    with Cons.prems obtain b' where b': "batchLoop rows fin [] ?cnt (txnId r) ?est = Inr b'"
      and b: "b = r # b'"
      by (auto simp: batchLoop_acc [of rows fin "[r]"] split: sum.splits)
    from Cons.IH [OF b'] obtain rest where rest: "rows = b' @ rest"
      "rest = [] \<longrightarrow> code fin = ERR_EXHAUST"
      "rest \<noteq> [] \<longrightarrow>
          (let cur = (if b' = [] then txnId r else txnId (last b')) in
             cur = 0 \<or> cur \<noteq> txnId (hd rest))
          \<and> (?cnt + of_nat (length b') + 1 \<ge> suggestBatch
             \<or> ?est + payloadBytes b' + of_nat (length (opValue (hd rest))) \<ge> suggestBytes)"
      by blast
    have "r # rows = b @ rest" using b rest(1) by simp
    moreover have "rest \<noteq> [] \<longrightarrow>
          (let cur = (if b = [] then nowId else txnId (last b)) in
             cur = 0 \<or> cur \<noteq> txnId (hd rest))
          \<and> (cnt + of_nat (length b) + 1 \<ge> suggestBatch
             \<or> est + payloadBytes b + of_nat (length (opValue (hd rest))) \<ge> suggestBytes)"
      using rest(3) b by (auto simp: payloadBytes_def Let_def add.assoc add.commute add.left_commute)
    ultimately show ?thesis using rest(2) by blast
  qed
qed

lemma batchLoop_subset:
  assumes "batchLoop rows fin [] cnt nowId est = Inr b"
  shows "set b \<subseteq> set rows"
  using batchLoop_cut [OF assms] by auto

lemma batchLoop_nonzero_boundary:
  assumes nz: "\<forall>r \<in> set rows. txnId r \<noteq> 0"
    and loop: "batchLoop rows fin [] 0 0 0 = Inr binlogs"
  shows "\<exists>rest. rows = binlogs @ rest
           \<and> (rest = [] \<longrightarrow> code fin = ERR_EXHAUST)
           \<and> (binlogs \<noteq> [] \<and> rest \<noteq> [] \<longrightarrow> txnId (last binlogs) \<noteq> txnId (hd rest))
           \<and> (rest \<noteq> [] \<longrightarrow>
                 of_nat (length binlogs) + 1 \<ge> suggestBatch
                 \<or> payloadBytes binlogs + of_nat (length (opValue (hd rest))) \<ge> suggestBytes)"
proof -
  from batchLoop_cut [OF loop] obtain rest where rest: "rows = binlogs @ rest"
    "rest = [] \<longrightarrow> code fin = ERR_EXHAUST"
    "rest \<noteq> [] \<longrightarrow>
          (let cur = (if binlogs = [] then 0 else txnId (last binlogs)) in
             cur = 0 \<or> cur \<noteq> txnId (hd rest))
          \<and> (0 + of_nat (length binlogs) + 1 \<ge> suggestBatch
             \<or> 0 + payloadBytes binlogs + of_nat (length (opValue (hd rest))) \<ge> suggestBytes)"
    by blast
  have "binlogs \<noteq> [] \<longrightarrow> txnId (last binlogs) \<noteq> 0"
    using nz rest(1) by auto
  with rest show ?thesis by (auto simp: Let_def)
qed

lemma sorted_le_last:
  fixes ks :: "('a :: linorder) list"
  assumes "sorted ks" "k \<in> set ks"
  shows "k \<le> last ks"
proof -
  from assms(2) obtain i where i: "i < length ks" "ks ! i = k" by (auto simp: in_set_conv_nth)
  then have ne: "ks \<noteq> []" by auto
  have "ks ! i \<le> ks ! (length ks - 1)"
    using assms(1) i(1) by (intro sorted_nth_mono) auto
  then show ?thesis using i ne by (simp add: last_conv_nth)
qed

lemma sorted_hd_le:
  fixes ks :: "('a :: linorder) list"
  assumes "sorted ks" "k \<in> set ks"
  shows "hd ks \<le> k"
  using assms by (cases ks) auto

lemma sorted_boundary_separates:
  fixes b rest :: "ReplLog list"
  assumes srt: "sorted (map txnId (b @ rest))"
    and bnd: "b \<noteq> [] \<and> rest \<noteq> [] \<longrightarrow> txnId (last b) \<noteq> txnId (hd rest)"
  shows "\<forall>x \<in> set b. \<forall>y \<in> set rest. txnId x < txnId y"
proof (intro ballI)
  fix x y assume x: "x \<in> set b" and y: "y \<in> set rest"
  then have ne: "b \<noteq> []" "rest \<noteq> []" by auto
  from srt have parts: "sorted (map txnId b)" "sorted (map txnId rest)"
    "\<forall>u \<in> set (map txnId b). \<forall>v \<in> set (map txnId rest). u \<le> v"
    by (simp_all add: sorted_append)
  have 1: "txnId x \<le> txnId (last b)"
    using sorted_le_last [OF parts(1), of "txnId x"] x ne(1) by (simp add: last_map)
  have 2: "txnId (last b) \<le> txnId (hd rest)"
    using parts(3) ne by (simp add: last_in_set hd_in_set)
  have 3: "txnId (hd rest) \<le> txnId y"
    using sorted_hd_le [OF parts(2), of "txnId y"] y ne(2) by (simp add: hd_map)
  have 4: "txnId (last b) \<noteq> txnId (hd rest)" using bnd ne by simp
  from 2 4 have "txnId (last b) < txnId (hd rest)" by simp
  with 1 3 show "txnId x < txnId y" by simp
qed

subsection \<open>What a successful masterSendBinlog has done\<close>

lemma masterSendBinlog_success:
  assumes "masterSendBinlog enc gi c sid dst pos = Some (Inr newPos, c')"
  shows "\<exists>store txn binlogs.
           gi sid = Some store \<and> createTransaction store = Inr txn
           \<and> batchLoop (fst (txn (pos + 1))) (snd (txn (pos + 1))) [] 0 0 0 = Inr binlogs
           \<and> written c' = written c @ [sentFrame enc dst binlogs]
           \<and> newPos = (if binlogs = [] then pos else txnId (last binlogs))"
proof -
  from assms obtain store where store: "gi sid = Some store"
    by (auto simp: masterSendBinlog_def split: option.splits)
  from assms store obtain txn where txn: "createTransaction store = Inr txn"
    by (auto simp: masterSendBinlog_def split: sum.splits)
  from assms store txn obtain binlogs where
    loop: "batchLoop (fst (txn (pos + 1))) (snd (txn (pos + 1))) [] 0 0 0 = Inr binlogs"
    by (auto simp: masterSendBinlog_def Let_def split: sum.splits)
  from assms store txn loop have
    "written c' = written c @ [sentFrame enc dst binlogs]
     \<and> newPos = (if binlogs = [] then pos else txnId (last binlogs))"
    by (auto simp: masterSendBinlog_def Let_def sentFrame_def writeData_def nextWrite_def
          readLine_def last_conv_nth
        split: sum.splits prod.splits if_splits list.splits)
  with store txn loop show ?thesis by blast
qed

lemma masterSendBinlog_ok:
  assumes "gi sid = Some store" "createTransaction store = Inr txn"
    and "txn (pos + 1) = (rows, fin)" "batchLoop rows fin [] 0 0 0 = Inr b"
    and "writeResults c = []" "readResults c = Inr ''+OK'' # rs"
  shows "masterSendBinlog enc gi c sid dst pos
     = Some (Inr (if b = [] then pos else txnId (last b)),
             c\<lparr>written := written c @ [sentFrame enc dst b], readResults := rs\<rparr>)"
  using assms
  by (simp add: masterSendBinlog_def Let_def sentFrame_def writeData_def nextWrite_def
        readLine_def ok_def okStatus_def last_conv_nth)

lemma send_from_binlogStore:
  assumes "createBinlogCursor binlog (pos + 1) = (rows, fin)"
    and "batchLoop rows fin [] 0 0 0 = Inr b"
  shows "masterSendBinlog enc (segmentOf (binlogStore binlog))
           \<lparr>written = w, writeResults = [], readResults = Inr ''+OK'' # rs\<rparr> sid dst pos
     = Some (Inr (if b = [] then pos else txnId (last b)),
             \<lparr>written = w @ [sentFrame enc dst b], writeResults = [], readResults = rs\<rparr>)"
  using masterSendBinlog_ok
    [where gi = "segmentOf (binlogStore binlog)" and sid = sid
       and store = "binlogStore binlog" and txn = "createBinlogCursor binlog" and pos = pos
       and rows = rows and fin = fin and b = b and rs = rs and enc = enc and dst = dst
       and c = "\<lparr>written = w, writeResults = [], readResults = Inr ''+OK'' # rs\<rparr>"]
    assms
  by (simp add: segmentOf_def binlogStore_def)

text \<open>The bytes of a frame, and the timeout of the frame of an empty batch.\<close>

lemma to_string_length: "0 < k \<Longrightarrow> n < 10 ^ k \<Longrightarrow> length (to_string n) \<le> k"
proof (induction k arbitrary: n)
  case 0
  then show ?case by simp
next
  case (Suc k)
  show ?case
  proof (cases "n < 10")
    case True
    then show ?thesis by (subst to_string.simps) simp
  next
    case False
    with Suc.prems have k: "0 < k" by (cases k) auto
    from Suc.prems have "n div 10 < 10 ^ k" by (simp add: less_mult_imp_div_less mult.commute)
    from Suc.IH [OF k this] False show ?thesis by (subst to_string.simps) simp
  qed
qed

lemma fmtBinlogs_bytes:
  "fmtBinlogs enc dst binlogs
     = CHR ''*'' # to_string (length binlogs * 2 + 2) @ CRLF
       @ ''$12'' @ CRLF @ ''applybinlogs'' @ CRLF
       @ CHR ''$'' # to_string (length (to_string (unat dst))) @ CRLF
       @ to_string (unat dst) @ CRLF
       @ concat (map (\<lambda>v. fmtBulk (fst (enc v)) @ fmtBulk (snd (enc v))) binlogs)"
proof -
  have "fmtBulk ''applybinlogs'' = ''$12'' @ CRLF @ ''applybinlogs'' @ CRLF"
    by code_simp
  then show ?thesis
    by (simp add: fmtBinlogs_def fmtMultiBulkLen_def fmtBulk_def [of "to_string (unat dst)"])
qed

lemma empty_frame_bytes:
  "fmtBinlogs enc dst []
     = ''*2'' @ CRLF @ ''$12'' @ CRLF @ ''applybinlogs'' @ CRLF
       @ CHR ''$'' # to_string (length (to_string (unat dst))) @ CRLF
       @ to_string (unat dst) @ CRLF"
proof -
  have "to_string (Suc (Suc 0)) = ''2''" by code_simp
  then show ?thesis by (simp add: fmtBinlogs_bytes)
qed

lemma empty_frame_secs: "writeSecs (of_nat (length (fmtBinlogs enc dst []))) = 1"
proof -
  have "unat dst < 10 ^ 10"
    using unsigned_less [of dst, where 'a = nat] by simp
  then have d: "length (to_string (unat dst)) \<le> 10"
    using to_string_length [of 10 "unat dst"] by simp
  then have "length (to_string (unat dst)) < 10 ^ 2" by simp
  then have dd: "length (to_string (length (to_string (unat dst)))) \<le> 2"
    using to_string_length [of 2 "length (to_string (unat dst))"] by simp
  have "length (fmtBinlogs enc dst []) \<le> 40"
    using d dd by (simp add: empty_frame_bytes CRLF_def)
  then have "unat (of_nat (length (fmtBinlogs enc dst [])) :: 64 word) \<le> 40"
    by (simp add: unat_of_nat)
  then show ?thesis
    by (simp add: writeSecs_def word_less_nat_alt)
qed

text \<open>
  C5. Whenever \<^verbatim>\<open>masterSendBinlog\<close> succeeds from position \<open>pos\<close>, it has
  written exactly one frame, that of the batch the loop gathered, and the position it
  returns is the transaction id of the last row of the batch when there is one and
  \<open>pos\<close> itself when the batch is empty. The frame is the multi-bulk head for two
  items more than twice the rows, the bulk \<^verbatim>\<open>applybinlogs\<close>, the bulk of the
  destination store in decimal, and the key and value bulks of each row. In
  particular, when the cursor is exhausted at the first read the empty batch is still
  framed and written (the bytes \<^verbatim>\<open>*2\<close>, \<^verbatim>\<open>$12\<close>, \<^verbatim>\<open>applybinlogs\<close> and the
  destination store, each ended by CR LF, with a timeout of one second), and the
  position returned is \<open>pos\<close>.
\<close>

theorem masterSendBinlog_position:
  assumes "masterSendBinlog enc gi c sid dst pos = Some (Inr newPos, c')"
  shows "\<exists>store txn binlogs.
           gi sid = Some store \<and> createTransaction store = Inr txn
           \<and> batchLoop (fst (txn (pos + 1))) (snd (txn (pos + 1))) [] 0 0 0 = Inr binlogs
           \<and> written c' = written c @ [sentFrame enc dst binlogs]
           \<and> written c'
               = written c
                 @ [WriteData (fmtBinlogs enc dst binlogs)
                      (writeSecs (of_nat (length (fmtBinlogs enc dst binlogs))))]
           \<and> fmtBinlogs enc dst binlogs
               = CHR ''*'' # to_string (length binlogs * 2 + 2) @ CRLF
                 @ ''$12'' @ CRLF @ ''applybinlogs'' @ CRLF
                 @ CHR ''$'' # to_string (length (to_string (unat dst))) @ CRLF
                 @ to_string (unat dst) @ CRLF
                 @ concat (map (\<lambda>v. fmtBulk (fst (enc v)) @ fmtBulk (snd (enc v))) binlogs)
           \<and> (binlogs \<noteq> [] \<longrightarrow> newPos = txnId (last binlogs))
           \<and> (binlogs = [] \<longrightarrow> newPos = pos)
           \<and> (fst (txn (pos + 1)) = [] \<longrightarrow>
                 written c' = written c @ [sentFrame enc dst []]
                 \<and> written c'
                     = written c
                       @ [WriteData
                            (''*2'' @ CRLF @ ''$12'' @ CRLF @ ''applybinlogs'' @ CRLF
                             @ CHR ''$'' # to_string (length (to_string (unat dst))) @ CRLF
                             @ to_string (unat dst) @ CRLF)
                            1]
                 \<and> newPos = pos)"
proof -
  from masterSendBinlog_success [OF assms] obtain store txn binlogs where
    h: "gi sid = Some store" "createTransaction store = Inr txn"
       "batchLoop (fst (txn (pos + 1))) (snd (txn (pos + 1))) [] 0 0 0 = Inr binlogs"
       "written c' = written c @ [sentFrame enc dst binlogs]"
       "newPos = (if binlogs = [] then pos else txnId (last binlogs))"
    by blast
  have sent: "written c'
      = written c
        @ [WriteData (fmtBinlogs enc dst binlogs)
             (writeSecs (of_nat (length (fmtBinlogs enc dst binlogs))))]"
    using h(4) by (simp add: sentFrame_def)
  have empty: "fst (txn (pos + 1)) = [] \<longrightarrow> binlogs = []"
    using h(3) by (auto split: if_splits)
  have exhausted_case: "fst (txn (pos + 1)) = [] \<longrightarrow>
      written c' = written c @ [sentFrame enc dst []]
      \<and> written c'
          = written c
            @ [WriteData
                 (''*2'' @ CRLF @ ''$12'' @ CRLF @ ''applybinlogs'' @ CRLF
                  @ CHR ''$'' # to_string (length (to_string (unat dst))) @ CRLF
                  @ to_string (unat dst) @ CRLF)
                 1]
      \<and> newPos = pos"
  proof
    assume "fst (txn (pos + 1)) = []"
    with empty have nil: "binlogs = []" by simp
    have "sentFrame enc dst []
        = WriteData
            (''*2'' @ CRLF @ ''$12'' @ CRLF @ ''applybinlogs'' @ CRLF
             @ CHR ''$'' # to_string (length (to_string (unat dst))) @ CRLF
             @ to_string (unat dst) @ CRLF)
            1"
      unfolding sentFrame_def empty_frame_secs by (simp only: empty_frame_bytes)
    with h(4,5) nil show "written c' = written c @ [sentFrame enc dst []]
      \<and> written c'
          = written c
            @ [WriteData
                 (''*2'' @ CRLF @ ''$12'' @ CRLF @ ''applybinlogs'' @ CRLF
                  @ CHR ''$'' # to_string (length (to_string (unat dst))) @ CRLF
                  @ to_string (unat dst) @ CRLF)
                 1]
      \<and> newPos = pos"
      by simp
  qed
  have pos: "(binlogs \<noteq> [] \<longrightarrow> newPos = txnId (last binlogs))
      \<and> (binlogs = [] \<longrightarrow> newPos = pos)"
    using h(5) by simp
  from h(1,2,3,4) sent fmtBinlogs_bytes [of enc dst binlogs] pos exhausted_case
  show ?thesis by blast
qed

text \<open>
  The theorem at two calls, with the bytes written in full: on an empty binlog from
  position 7, where the frame of the empty batch is written and 7 comes back, and on
  the binlog of scenario A from position 9, where the frame of the three rows is
  written and 11 comes back.
\<close>

theorem masterSendBinlog_position_witness:
  "masterSendBinlog plainEncode (segmentOf (binlogStore [])) (peer [''+OK'']) 0 0 7
     = Some (Inr 7,
             \<lparr>written =
                [WriteData
                   (''*2'' @ [CHR 0x0D, CHR 0x0A] @ ''$12'' @ [CHR 0x0D, CHR 0x0A]
                    @ ''applybinlogs'' @ [CHR 0x0D, CHR 0x0A]
                    @ ''$1'' @ [CHR 0x0D, CHR 0x0A] @ ''0'' @ [CHR 0x0D, CHR 0x0A])
                   1],
              writeResults = [], readResults = []\<rparr>)
   \<and> masterSendBinlog plainEncode (segmentOf (binlogStore steadyBinlog)) (peer [''+OK'']) 0 0 9
     = Some (Inr 11,
             \<lparr>written =
                [WriteData
                   (''*8'' @ [CHR 0x0D, CHR 0x0A] @ ''$12'' @ [CHR 0x0D, CHR 0x0A]
                    @ ''applybinlogs'' @ [CHR 0x0D, CHR 0x0A]
                    @ ''$1'' @ [CHR 0x0D, CHR 0x0A] @ ''0'' @ [CHR 0x0D, CHR 0x0A]
                    @ ''$2'' @ [CHR 0x0D, CHR 0x0A] @ ''10'' @ [CHR 0x0D, CHR 0x0A]
                    @ ''$1'' @ [CHR 0x0D, CHR 0x0A] @ ''a'' @ [CHR 0x0D, CHR 0x0A]
                    @ ''$2'' @ [CHR 0x0D, CHR 0x0A] @ ''10'' @ [CHR 0x0D, CHR 0x0A]
                    @ ''$1'' @ [CHR 0x0D, CHR 0x0A] @ ''b'' @ [CHR 0x0D, CHR 0x0A]
                    @ ''$2'' @ [CHR 0x0D, CHR 0x0A] @ ''11'' @ [CHR 0x0D, CHR 0x0A]
                    @ ''$1'' @ [CHR 0x0D, CHR 0x0A] @ ''c'' @ [CHR 0x0D, CHR 0x0A])
                   1],
              writeResults = [], readResults = []\<rparr>)
   \<and> (\<exists>binlogs. batchLoop [] exhausted [] 0 0 0 = Inr binlogs
         \<and> fmtBinlogs plainEncode 0 binlogs
             = ''*2'' @ [CHR 0x0D, CHR 0x0A] @ ''$12'' @ [CHR 0x0D, CHR 0x0A]
               @ ''applybinlogs'' @ [CHR 0x0D, CHR 0x0A]
               @ ''$1'' @ [CHR 0x0D, CHR 0x0A] @ ''0'' @ [CHR 0x0D, CHR 0x0A])
   \<and> (\<exists>binlogs. batchLoop steadyBinlog exhausted [] 0 0 0 = Inr binlogs
         \<and> binlogs \<noteq> [] \<and> 11 = txnId (last binlogs))"
proof -
  have run0: "masterSendBinlog plainEncode (segmentOf (binlogStore [])) (peer [''+OK'']) 0 0 7
     = Some (Inr 7,
             \<lparr>written =
                [WriteData
                   (''*2'' @ [CHR 0x0D, CHR 0x0A] @ ''$12'' @ [CHR 0x0D, CHR 0x0A]
                    @ ''applybinlogs'' @ [CHR 0x0D, CHR 0x0A]
                    @ ''$1'' @ [CHR 0x0D, CHR 0x0A] @ ''0'' @ [CHR 0x0D, CHR 0x0A])
                   1],
              writeResults = [], readResults = []\<rparr>)"
    by code_simp
  have run1: "masterSendBinlog plainEncode (segmentOf (binlogStore steadyBinlog))
       (peer [''+OK'']) 0 0 9
     = Some (Inr 11,
             \<lparr>written =
                [WriteData
                   (''*8'' @ [CHR 0x0D, CHR 0x0A] @ ''$12'' @ [CHR 0x0D, CHR 0x0A]
                    @ ''applybinlogs'' @ [CHR 0x0D, CHR 0x0A]
                    @ ''$1'' @ [CHR 0x0D, CHR 0x0A] @ ''0'' @ [CHR 0x0D, CHR 0x0A]
                    @ ''$2'' @ [CHR 0x0D, CHR 0x0A] @ ''10'' @ [CHR 0x0D, CHR 0x0A]
                    @ ''$1'' @ [CHR 0x0D, CHR 0x0A] @ ''a'' @ [CHR 0x0D, CHR 0x0A]
                    @ ''$2'' @ [CHR 0x0D, CHR 0x0A] @ ''10'' @ [CHR 0x0D, CHR 0x0A]
                    @ ''$1'' @ [CHR 0x0D, CHR 0x0A] @ ''b'' @ [CHR 0x0D, CHR 0x0A]
                    @ ''$2'' @ [CHR 0x0D, CHR 0x0A] @ ''11'' @ [CHR 0x0D, CHR 0x0A]
                    @ ''$1'' @ [CHR 0x0D, CHR 0x0A] @ ''c'' @ [CHR 0x0D, CHR 0x0A])
                   1],
              writeResults = [], readResults = []\<rparr>)"
    by code_simp
  have cur0: "createBinlogCursor [] 8 = ([], exhausted)"
    by (simp add: createBinlogCursor_def)
  have cur1: "createBinlogCursor steadyBinlog 10 = (steadyBinlog, exhausted)"
    by (simp add: createBinlogCursor_def steadyBinlog_def)
  from masterSendBinlog_position [OF run0] obtain store txn binlogs where
    s0: "segmentOf (binlogStore []) (0 :: 32 word) = Some store"
    and t0: "createTransaction store = Inr txn"
    and l0: "batchLoop (fst (txn (7 + 1))) (snd (txn (7 + 1))) [] 0 0 0 = Inr binlogs"
    and f0: "written
               \<lparr>written =
                  [WriteData
                     (''*2'' @ [CHR 0x0D, CHR 0x0A] @ ''$12'' @ [CHR 0x0D, CHR 0x0A]
               @ ''applybinlogs'' @ [CHR 0x0D, CHR 0x0A]
               @ ''$1'' @ [CHR 0x0D, CHR 0x0A] @ ''0'' @ [CHR 0x0D, CHR 0x0A])
                     1],
                writeResults = [], readResults = []\<rparr>
             = written (peer [''+OK''])
               @ [WriteData (fmtBinlogs plainEncode 0 binlogs)
                    (writeSecs (of_nat (length (fmtBinlogs plainEncode 0 binlogs))))]"
    by blast
  from s0 have "store = binlogStore []" by (simp add: segmentOf_def)
  with t0 have "txn = createBinlogCursor []" by (simp add: binlogStore_def)
  with l0 have "batchLoop [] exhausted [] 0 0 0 = Inr binlogs" by (simp add: cur0)
  moreover from f0 have "fmtBinlogs plainEncode 0 binlogs
             = ''*2'' @ [CHR 0x0D, CHR 0x0A] @ ''$12'' @ [CHR 0x0D, CHR 0x0A]
               @ ''applybinlogs'' @ [CHR 0x0D, CHR 0x0A]
               @ ''$1'' @ [CHR 0x0D, CHR 0x0A] @ ''0'' @ [CHR 0x0D, CHR 0x0A]"
    by (simp add: peer_def)
  ultimately have w0: "\<exists>binlogs. batchLoop [] exhausted [] 0 0 0 = Inr binlogs
         \<and> fmtBinlogs plainEncode 0 binlogs
             = ''*2'' @ [CHR 0x0D, CHR 0x0A] @ ''$12'' @ [CHR 0x0D, CHR 0x0A]
               @ ''applybinlogs'' @ [CHR 0x0D, CHR 0x0A]
               @ ''$1'' @ [CHR 0x0D, CHR 0x0A] @ ''0'' @ [CHR 0x0D, CHR 0x0A]"
    by blast
  from masterSendBinlog_position [OF run1] obtain store1 txn1 binlogs1 where
    s1: "segmentOf (binlogStore steadyBinlog) (0 :: 32 word) = Some store1"
    and t1: "createTransaction store1 = Inr txn1"
    and l1: "batchLoop (fst (txn1 (9 + 1))) (snd (txn1 (9 + 1))) [] 0 0 0 = Inr binlogs1"
    and p1: "binlogs1 \<noteq> [] \<longrightarrow> 11 = txnId (last binlogs1)"
    and q1: "binlogs1 = [] \<longrightarrow> (11 :: 64 word) = 9"
    by blast
  from s1 have "store1 = binlogStore steadyBinlog" by (simp add: segmentOf_def)
  with t1 have "txn1 = createBinlogCursor steadyBinlog" by (simp add: binlogStore_def)
  with l1 have "batchLoop steadyBinlog exhausted [] 0 0 0 = Inr binlogs1" by (simp add: cur1)
  moreover from q1 have "binlogs1 \<noteq> []" by auto
  ultimately have w1: "\<exists>binlogs. batchLoop steadyBinlog exhausted [] 0 0 0 = Inr binlogs
         \<and> binlogs \<noteq> [] \<and> 11 = txnId (last binlogs)"
    using p1 by blast
  from run0 run1 w0 w1 show ?thesis by blast
qed

subsection \<open>Scenario C: the count threshold\<close>

text \<open>
  C1, as stated, at the store of scenario C: the claim gives position 64 and the rows
  of transactions 1 to 64. The call returns another position, and the loop leaves
  another batch.
\<close>

theorem first_push_is_not_64:
  "map_option fst
     (masterSendBinlog plainEncode (segmentOf (binlogStore (singleRowTxns 70)))
        (peer [''+OK'']) 0 0 0)
     \<noteq> Some (Inr 64)
   \<and> batchLoop (fst (createBinlogCursor (singleRowTxns 70) 1))
        (snd (createBinlogCursor (singleRowTxns 70) 1)) [] 0 0 0
     \<noteq> Inr (singleRowTxns 64)"
proof -
  have "map_option fst
     (masterSendBinlog plainEncode (segmentOf (binlogStore (singleRowTxns 70)))
        (peer [''+OK'']) 0 0 0)
     \<noteq> Some (Inr 64)"
    by code_simp
  moreover have "batchLoop (fst (createBinlogCursor (singleRowTxns 70) 1))
        (snd (createBinlogCursor (singleRowTxns 70) 1)) [] 0 0 0
     \<noteq> Inr (singleRowTxns 64)"
    by code_simp
  ultimately show ?thesis by (rule conjI)
qed

text \<open>
  C1, amended. For a store holding 70 single-row transactions with ids 1 to 70, one
  byte of payload each, and a replica at position 0, the first call of
  \<^verbatim>\<open>masterSendBinlog\<close> writes a batch of exactly 63 rows, those of transactions
  1 to 63, and returns position 63: \<^verbatim>\<open>cnt\<close> counts the row just read, so the
  64th row, which starts a new transaction, finds the count threshold reached and is
  left out.
\<close>

theorem first_push_of_seventy_rows:
  "masterSendBinlog enc (segmentOf (binlogStore (singleRowTxns 70))) (peer [''+OK'']) 0 0 0
     = Some (Inr 63, \<lparr>written = [sentFrame enc 0 (singleRowTxns 63)], writeResults = [],
                       readResults = []\<rparr>)
   \<and> length (singleRowTxns 63) = 63
   \<and> map txnId (singleRowTxns 63) = map of_nat [1..<64]"
proof -
  have "masterSendBinlog enc (segmentOf (binlogStore (singleRowTxns 70))) (peer [''+OK'']) 0 0 0
     = Some (Inr 63, \<lparr>written = [sentFrame enc 0 (singleRowTxns 63)], writeResults = [],
                       readResults = []\<rparr>)"
    by code_simp
  moreover have "length (singleRowTxns 63) = 63"
    by (simp add: singleRowTxns_def)
  moreover have "map txnId (singleRowTxns 63) = map of_nat [1..<64]"
    by (simp add: singleRowTxns_def comp_def)
  ultimately show ?thesis by blast
qed

subsection \<open>Scenario D: the timeout of an oversize batch\<close>

lemma oversize_frame_length: "length (fmtBinlogs plainEncode 0 oversizeTxn) = 31457370"
  by (simp add: fmtBinlogs_def fmtBulk_def fmtMultiBulkLen_def CRLF_def plainEncode_def
        oversizeTxn_def to_string.simps)

lemma oversize_loop: "batchLoop oversizeTxn exhausted [] 0 0 0 = Inr oversizeTxn"
  by (simp add: oversizeTxn_def Let_def suggestBatch_def suggestBytes_def exhausted_def
        word_le_nat_alt word_less_nat_alt)

lemma oversize_cursor: "createBinlogCursor oversizeTxn 5 = (oversizeTxn, exhausted)"
  by (simp add: oversizeTxn_def createBinlogCursor_def)

lemma oversize_last: "length oversizeTxn = 3 \<and> txnId (oversizeTxn ! 2) = 5"
  by (simp add: oversizeTxn_def)

text \<open>
  C2, the code at a frame of thirty megabytes. The store holds the one transaction of
  scenario D and the replica is at position 4. The frame is longer than 10 MiB, and
  it is written with a timeout of 2 seconds, where the claim says 4: the test for
  1 MiB comes first, so the branch that sets 4 is never taken, at any size.
\<close>

theorem oversize_batch_timeout:
  "length (fmtBinlogs plainEncode 0 oversizeTxn) = 31457370
   \<and> masterSendBinlog plainEncode (segmentOf (binlogStore oversizeTxn)) (peer [''+OK'']) 0 0 4
       = Some (Inr 5, \<lparr>written = [WriteData (fmtBinlogs plainEncode 0 oversizeTxn) 2],
                        writeResults = [], readResults = []\<rparr>)
   \<and> writeSecs sz = (if sz > 1024 * 1024 then 2 else 1)"
proof -
  have "masterSendBinlog plainEncode (segmentOf (binlogStore oversizeTxn)) (peer [''+OK'']) 0 0 4
       = Some (Inr 5, \<lparr>written = [WriteData (fmtBinlogs plainEncode 0 oversizeTxn) 2],
                        writeResults = [], readResults = []\<rparr>)"
    by (simp add: masterSendBinlog_def segmentOf_def binlogStore_def Let_def oversize_cursor
          oversize_loop oversize_frame_length oversize_last writeSecs_def writeData_def
          nextWrite_def readLine_def peer_def ok_def okStatus_def)
  moreover have "writeSecs sz = (if sz > 1024 * 1024 then 2 else 1)"
  proof -
    have "(1048576 :: 64 word) < 10485760" by simp
    then have "10485760 < sz \<longrightarrow> 1048576 < sz"
      using less_trans [of "1048576 :: 64 word" 10485760 sz] by blast
    then show ?thesis by (simp add: writeSecs_def)
  qed
  ultimately show ?thesis using oversize_frame_length by blast
qed

subsection \<open>Batches end between transactions\<close>

lemma split_loop:
  "batchLoop splitTxn exhausted [] 0 0 0 = Inr [\<lparr>txnId = 0, opValue = ''a''\<rparr>]"
  by (simp add: splitTxn_def Let_def suggestBatch_def suggestBytes_def exhausted_def
        word_le_nat_alt word_less_nat_alt)

text \<open>
  C3, as stated, at a cursor that delivers the two rows of a transaction with id 0 (a
  replica at position \<open>2^64 - 1\<close>, so that the cursor begins at \<open>0\<close>): the first
  row is sent, the second row of the same transaction is not.
\<close>

theorem transaction_zero_is_split:
  "masterSendBinlog plainEncode (segmentOf (binlogStore splitTxn)) (peer [''+OK'']) 0 0
       18446744073709551615
     = Some (Inr 0, \<lparr>written = [sentFrame plainEncode 0 [\<lparr>txnId = 0, opValue = ''a''\<rparr>]],
                      writeResults = [], readResults = []\<rparr>)
   \<and> txnId (splitTxn ! 0) = txnId (splitTxn ! 1)
   \<and> length splitTxn = 2"
proof -
  have cur: "createBinlogCursor splitTxn 18446744073709551616 = (splitTxn, exhausted)"
    by (simp add: createBinlogCursor_def splitTxn_def)
  have "masterSendBinlog plainEncode (segmentOf (binlogStore splitTxn)) (peer [''+OK'']) 0 0
       18446744073709551615
     = Some (Inr 0, \<lparr>written = [sentFrame plainEncode 0 [\<lparr>txnId = 0, opValue = ''a''\<rparr>]],
                      writeResults = [], readResults = []\<rparr>)"
    by (simp add: masterSendBinlog_def segmentOf_def binlogStore_def Let_def cur split_loop
          sentFrame_def writeData_def nextWrite_def readLine_def peer_def ok_def okStatus_def)
  moreover have "txnId (splitTxn ! 0) = txnId (splitTxn ! 1)" "length splitTxn = 2"
    by (simp_all add: splitTxn_def)
  ultimately show ?thesis by blast
qed

text \<open>
  C3, amended. Provided that no row the cursor delivers has transaction id 0, every
  batch the loop gathers is a prefix of the cursor's rows that ends between two
  transactions: if a row is left over, its transaction id differs from that of the
  last row taken, and a threshold was reached when it was read (the count of rows
  read, or the payload bytes read, that row included). The thresholds are looked at
  only at a row that begins a transaction, so a transaction whose first row is taken
  is taken whole, however many bytes its rows add up to. When the rows come in the
  order of their ids, no transaction id occurs both in the batch and after it.
\<close>

theorem batch_keeps_transactions_whole:
  assumes nz: "\<forall>r \<in> set rows. txnId r \<noteq> 0"
    and loop: "batchLoop rows fin [] 0 0 0 = Inr binlogs"
  shows "\<exists>rest. rows = binlogs @ rest
           \<and> (binlogs \<noteq> [] \<and> rest \<noteq> [] \<longrightarrow> txnId (last binlogs) \<noteq> txnId (hd rest))
           \<and> (rest \<noteq> [] \<longrightarrow>
                 of_nat (length binlogs) + 1 \<ge> suggestBatch
                 \<or> payloadBytes binlogs + of_nat (length (opValue (hd rest))) \<ge> suggestBytes)
           \<and> (sorted (map txnId rows) \<longrightarrow>
                 (\<forall>x \<in> set binlogs. \<forall>y \<in> set rest. txnId x < txnId y))"
proof -
  from batchLoop_nonzero_boundary [OF nz loop] obtain rest where rest:
    "rows = binlogs @ rest"
    "binlogs \<noteq> [] \<and> rest \<noteq> [] \<longrightarrow> txnId (last binlogs) \<noteq> txnId (hd rest)"
    "rest \<noteq> [] \<longrightarrow>
       of_nat (length binlogs) + 1 \<ge> suggestBatch
       \<or> payloadBytes binlogs + of_nat (length (opValue (hd rest))) \<ge> suggestBytes"
    by blast
  have "sorted (map txnId rows) \<longrightarrow>
          (\<forall>x \<in> set binlogs. \<forall>y \<in> set rest. txnId x < txnId y)"
    using sorted_boundary_separates [of binlogs rest] rest(1,2) by blast
  with rest show ?thesis by blast
qed

text \<open>
  The theorem at scenario D: the three rows of 10 MiB of transaction 5 make one batch
  of 30 MiB, with nothing left over.
\<close>

theorem batch_keeps_transactions_whole_witness:
  "batchLoop oversizeTxn exhausted [] 0 0 0 = Inr oversizeTxn
   \<and> payloadBytes oversizeTxn = 30 * 1024 * 1024
   \<and> (\<exists>rest. oversizeTxn = oversizeTxn @ rest
         \<and> (\<forall>x \<in> set oversizeTxn. \<forall>y \<in> set rest. txnId x < txnId y))"
proof -
  have nz: "\<forall>r \<in> set oversizeTxn. txnId r \<noteq> 0"
    by (simp add: oversizeTxn_def)
  have srt: "sorted (map txnId oversizeTxn)"
    by (simp add: oversizeTxn_def)
  have bytes: "payloadBytes oversizeTxn = 30 * 1024 * 1024"
    by (simp add: payloadBytes_def oversizeTxn_def)
  from batch_keeps_transactions_whole [OF nz oversize_loop] srt
  have "\<exists>rest. oversizeTxn = oversizeTxn @ rest
         \<and> (\<forall>x \<in> set oversizeTxn. \<forall>y \<in> set rest. txnId x < txnId y)"
    by blast
  with oversize_loop bytes show ?thesis by blast
qed

text \<open>
  What the amended statement leaves open: a first row whose payload alone reaches
  \<^verbatim>\<open>suggestBytes\<close> begins a transaction with the threshold already reached, so
  it is left out, the frame of the empty batch is written and the position stays.
\<close>

lemma large_first_row_is_left_out:
  "masterSendBinlog enc
     (segmentOf (binlogStore [\<lparr>txnId = 5, opValue = replicate (16 * 1024 * 1024) (CHR ''x'')\<rparr>]))
     \<lparr>written = w, writeResults = [], readResults = Inr ''+OK'' # rs\<rparr> sid dst 4
   = Some (Inr 4, \<lparr>written = w @ [sentFrame enc dst []], writeResults = [], readResults = rs\<rparr>)"
proof -
  let ?row = "\<lparr>txnId = 5, opValue = replicate (16 * 1024 * 1024) (CHR ''x'')\<rparr>"
  have cur: "createBinlogCursor [?row] (4 + 1) = ([?row], exhausted)"
    by (simp add: createBinlogCursor_def)
  have loop: "batchLoop [?row] exhausted [] 0 0 0 = Inr []"
    by (simp add: Let_def suggestBatch_def suggestBytes_def word_le_nat_alt)
  from send_from_binlogStore [OF cur loop, of enc w rs sid dst] show ?thesis by simp
qed

text \<open>
  C10. The loop uses \<^verbatim>\<open>nowId == 0\<close> for "no transaction yet". A row whose
  transaction id is 0 is therefore handled as the first row of a transaction whatever
  came before it, also right after another row with id 0: the thresholds are
  tested, and the row closes the batch when one is reached. A row that carries the
  current nonzero id is taken without any test. So 64 rows of transaction 0 are cut
  after the 63rd, while rows whose ids are all nonzero are only ever cut between two
  transactions.
\<close>

theorem txnId_zero_is_sentinel:
  "(txnId r = 0 \<longrightarrow>
      batchLoop (r # rest) fin binlogs cnt nowId est
        = (if suggestBatch \<le> cnt + 1 \<or> suggestBytes \<le> est + of_nat (length (opValue r))
           then Inr binlogs
           else batchLoop rest fin (binlogs @ [r]) (cnt + 1) 0
                  (est + of_nat (length (opValue r)))))
   \<and> (nowId \<noteq> 0 \<longrightarrow> txnId r = nowId \<longrightarrow>
        batchLoop (r # rest) fin binlogs cnt nowId est
          = batchLoop rest fin (binlogs @ [r]) (cnt + 1) nowId
              (est + of_nat (length (opValue r))))
   \<and> batchLoop (replicate 64 \<lparr>txnId = 0, opValue = ''x''\<rparr>) exhausted [] 0 0 0
        = Inr (replicate 63 \<lparr>txnId = 0, opValue = ''x''\<rparr>)
   \<and> ((\<forall>x \<in> set rows. txnId x \<noteq> 0) \<longrightarrow> batchLoop rows fin [] 0 0 0 = Inr b \<longrightarrow>
        (\<exists>left. rows = b @ left
           \<and> (b \<noteq> [] \<and> left \<noteq> [] \<longrightarrow> txnId (last b) \<noteq> txnId (hd left))))"
proof -
  have zero: "txnId r = 0 \<longrightarrow>
      batchLoop (r # rest) fin binlogs cnt nowId est
        = (if suggestBatch \<le> cnt + 1 \<or> suggestBytes \<le> est + of_nat (length (opValue r))
           then Inr binlogs
           else batchLoop rest fin (binlogs @ [r]) (cnt + 1) 0
                  (est + of_nat (length (opValue r))))"
    by (simp add: Let_def)
  have same: "nowId \<noteq> 0 \<longrightarrow> txnId r = nowId \<longrightarrow>
        batchLoop (r # rest) fin binlogs cnt nowId est
          = batchLoop rest fin (binlogs @ [r]) (cnt + 1) nowId
              (est + of_nat (length (opValue r)))"
    by (simp add: Let_def)
  have cut: "batchLoop (replicate 64 \<lparr>txnId = 0, opValue = ''x''\<rparr>) exhausted [] 0 0 0
        = Inr (replicate 63 \<lparr>txnId = 0, opValue = ''x''\<rparr>)"
    by code_simp
  have whole: "(\<forall>x \<in> set rows. txnId x \<noteq> 0) \<longrightarrow> batchLoop rows fin [] 0 0 0 = Inr b \<longrightarrow>
        (\<exists>left. rows = b @ left
           \<and> (b \<noteq> [] \<and> left \<noteq> [] \<longrightarrow> txnId (last b) \<noteq> txnId (hd left)))"
    using batchLoop_nonzero_boundary [of rows fin b] by blast
  from zero same cut whole show ?thesis by blast
qed

text \<open>
  The theorem at rows that meet its conditions: with 63 rows read and the current id
  0, a further row of transaction 0 closes the batch; with the current id 5, a row of
  transaction 5 is taken although both thresholds are passed; the 70 single-row
  transactions of scenario C are cut after a whole transaction.
\<close>

theorem txnId_zero_is_sentinel_witness:
  "batchLoop [\<lparr>txnId = 0, opValue = ''x''\<rparr>] exhausted [\<lparr>txnId = 0, opValue = ''w''\<rparr>] 63 0 1
     = Inr [\<lparr>txnId = 0, opValue = ''w''\<rparr>]
   \<and> batchLoop [\<lparr>txnId = 5, opValue = ''x''\<rparr>] exhausted [\<lparr>txnId = 5, opValue = ''w''\<rparr>]
        100 5 33554432
     = Inr [\<lparr>txnId = 5, opValue = ''w''\<rparr>, \<lparr>txnId = 5, opValue = ''x''\<rparr>]
   \<and> (\<exists>left. singleRowTxns 70 = singleRowTxns 63 @ left
         \<and> txnId (last (singleRowTxns 63)) \<noteq> txnId (hd left))"
proof -
  let ?z = "\<lparr>txnId = 0, opValue = ''x''\<rparr>"
  let ?f = "\<lparr>txnId = 5, opValue = ''x''\<rparr>"
  have a: "batchLoop [?z] exhausted [\<lparr>txnId = 0, opValue = ''w''\<rparr>] 63 0 1
     = Inr [\<lparr>txnId = 0, opValue = ''w''\<rparr>]"
    using txnId_zero_is_sentinel
      [where r = ?z and rest = "[]" and fin = exhausted
         and binlogs = "[\<lparr>txnId = 0, opValue = ''w''\<rparr>]" and cnt = 63 and nowId = 0
         and est = 1]
    by (simp add: suggestBatch_def)
  have b: "batchLoop [?f] exhausted [\<lparr>txnId = 5, opValue = ''w''\<rparr>] 100 5 33554432
     = Inr [\<lparr>txnId = 5, opValue = ''w''\<rparr>, ?f]"
    using txnId_zero_is_sentinel
      [where r = ?f and rest = "[]" and fin = exhausted
         and binlogs = "[\<lparr>txnId = 5, opValue = ''w''\<rparr>]" and cnt = 100 and nowId = 5
         and est = 33554432]
    by (simp add: exhausted_def)
  have nz: "\<forall>x \<in> set (singleRowTxns 70). txnId x \<noteq> 0"
    by code_simp
  have loop: "batchLoop (singleRowTxns 70) exhausted [] 0 0 0 = Inr (singleRowTxns 63)"
    by code_simp
  have ne: "singleRowTxns 63 \<noteq> []" by code_simp
  have "\<exists>left. singleRowTxns 70 = singleRowTxns 63 @ left
         \<and> (singleRowTxns 63 \<noteq> [] \<and> left \<noteq> [] \<longrightarrow>
              txnId (last (singleRowTxns 63)) \<noteq> txnId (hd left))"
    using txnId_zero_is_sentinel
      [where rows = "singleRowTxns 70" and fin = exhausted and b = "singleRowTxns 63"]
      nz loop
    by blast
  then obtain left where left: "singleRowTxns 70 = singleRowTxns 63 @ left"
    "singleRowTxns 63 \<noteq> [] \<and> left \<noteq> [] \<longrightarrow>
       txnId (last (singleRowTxns 63)) \<noteq> txnId (hd left)"
    by blast
  have "length (singleRowTxns 70) \<noteq> length (singleRowTxns 63)"
    by (simp add: singleRowTxns_def)
  with left(1) have "left \<noteq> []" by auto
  with left ne have "\<exists>left. singleRowTxns 70 = singleRowTxns 63 @ left
         \<and> txnId (last (singleRowTxns 63)) \<noteq> txnId (hd left)"
    by blast
  with a b show ?thesis by blast
qed

subsection \<open>One push iteration\<close>

lemma pushStatus_setEntry: "pushStatus (setEntry sid cid e m) sid cid = e"
  by (simp add: setEntry_def)

lemma clientIdGen_setEntry: "clientIdGen (setEntry sid cid e m) = clientIdGen m"
  by (simp add: setEntry_def)

lemma steady_send:
  "masterSendBinlog enc (segmentOf (binlogStore steadyBinlog)) (peer [''+OK'']) 0 0 9
     = Some (Inr 11, \<lparr>written = [sentFrame enc 0 steadyBinlog], writeResults = [],
                       readResults = []\<rparr>)"
  by code_simp

lemma steady_push:
  "masterPushRoutine enc (segmentOf (binlogStore steadyBinlog)) now0 now1 0 cid
     (setEntry 0 cid (Some (dispatched 9 (peer [''+OK'']) cid)) m)
   = Some (setEntry 0 cid
       (Some \<lparr>isRunning = False, dstStoreId = 0, binlogPos = 11, nextSchedTime = now1,
              client = \<lparr>written = [sentFrame enc 0 steadyBinlog], writeResults = [],
                         readResults = []\<rparr>,
              clientId = cid\<rparr>) m)"
  by (simp add: masterPushRoutine_def pushGuard_def pushStatus_setEntry setEntry_def
        dispatched_def newMPovStatus_def steady_send word_less_nat_alt)

lemma steady_frame:
  "fmtBinlogs enc 0 steadyBinlog
     = ''*8'' @ CRLF @ ''$12'' @ CRLF @ ''applybinlogs'' @ CRLF @ ''$1'' @ CRLF @ ''0'' @ CRLF
       @ fmtBulk (fst (enc \<lparr>txnId = 10, opValue = ''a''\<rparr>))
       @ fmtBulk (snd (enc \<lparr>txnId = 10, opValue = ''a''\<rparr>))
       @ fmtBulk (fst (enc \<lparr>txnId = 10, opValue = ''b''\<rparr>))
       @ fmtBulk (snd (enc \<lparr>txnId = 10, opValue = ''b''\<rparr>))
       @ fmtBulk (fst (enc \<lparr>txnId = 11, opValue = ''c''\<rparr>))
       @ fmtBulk (snd (enc \<lparr>txnId = 11, opValue = ''c''\<rparr>))"
proof -
  have parts: "fmtMultiBulkLen 8 = ''*8'' @ CRLF"
    "fmtBulk ''applybinlogs'' = ''$12'' @ CRLF @ ''applybinlogs'' @ CRLF"
    "fmtBulk (to_string (unat (0 :: 32 word))) = ''$1'' @ CRLF @ ''0'' @ CRLF"
    by code_simp+
  show ?thesis
    unfolding fmtBinlogs_def steadyBinlog_def using parts by simp
qed

text \<open>
  C4. Store 0 holds the binlog rows (txn 10, a), (txn 10, b), (txn 11, c) and a replica
  is registered at position 9 (its entry has been dispatched to the push routine, and
  the slave answers \<^verbatim>\<open>+OK\<close>). One push iteration writes a single frame, the
  multi-bulk of length 8 that carries \<^verbatim>\<open>applybinlogs\<close>, the destination store
  and the key and value of each of the three rows, and leaves the entry at position
  11, not running, to be scheduled again at once.
\<close>

theorem steady_state_push:
  "masterPushRoutine enc (segmentOf (binlogStore steadyBinlog)) now0 now1 0 cid
     (setEntry 0 cid (Some (dispatched 9 (peer [''+OK'']) cid)) m)
   = Some (setEntry 0 cid
       (Some \<lparr>isRunning = False, dstStoreId = 0, binlogPos = 11, nextSchedTime = now1,
              client = \<lparr>written = [sentFrame enc 0 steadyBinlog], writeResults = [],
                         readResults = []\<rparr>,
              clientId = cid\<rparr>) m)
   \<and> entryPos 0 cid (setEntry 0 cid (Some (dispatched 9 (peer [''+OK'']) cid)) m) = Some 9
   \<and> fst (createBinlogCursor steadyBinlog (9 + 1)) = steadyBinlog
   \<and> fmtBinlogs enc 0 steadyBinlog
       = ''*8'' @ CRLF @ ''$12'' @ CRLF @ ''applybinlogs'' @ CRLF @ ''$1'' @ CRLF @ ''0'' @ CRLF
         @ fmtBulk (fst (enc \<lparr>txnId = 10, opValue = ''a''\<rparr>))
         @ fmtBulk (snd (enc \<lparr>txnId = 10, opValue = ''a''\<rparr>))
         @ fmtBulk (fst (enc \<lparr>txnId = 10, opValue = ''b''\<rparr>))
         @ fmtBulk (snd (enc \<lparr>txnId = 10, opValue = ''b''\<rparr>))
         @ fmtBulk (fst (enc \<lparr>txnId = 11, opValue = ''c''\<rparr>))
         @ fmtBulk (snd (enc \<lparr>txnId = 11, opValue = ''c''\<rparr>))"
proof -
  have before: "entryPos 0 cid (setEntry 0 cid (Some (dispatched 9 (peer [''+OK'']) cid)) m)
      = Some 9"
    by (simp add: entryPos_def pushStatus_setEntry dispatched_def newMPovStatus_def)
  have cur: "fst (createBinlogCursor steadyBinlog (9 + 1)) = steadyBinlog"
    by (simp add: createBinlogCursor_def steadyBinlog_def)
  from steady_push [of enc now0 now1 cid m] before cur steady_frame [of enc]
  show ?thesis by (intro conjI)
qed

subsection \<open>The position of an entry\<close>

text \<open>
  C7, as stated, at an entry registered at position \<open>2^64 - 1\<close> (a position that
  \<^verbatim>\<open>registerIncrSync\<close> accepts): \<^verbatim>\<open>binlogPos+1\<close> wraps to 0, the cursor
  begins at the start of the log, and the push leaves the entry at 11, a lower
  position.
\<close>

theorem push_wraps_position:
  "entryPos 0 0
     (setEntry 0 0 (Some (dispatched 18446744073709551615 (peer [''+OK'']) 0)) noEntries)
     = Some 18446744073709551615
   \<and> map_option (entryPos 0 0)
        (masterPushRoutine plainEncode (segmentOf (binlogStore steadyBinlog)) 0 0 0 0
           (setEntry 0 0 (Some (dispatched 18446744073709551615 (peer [''+OK'']) 0)) noEntries))
     = Some (Some 11)
   \<and> (11 :: 64 word) < 18446744073709551615"
proof -
  have send: "masterSendBinlog plainEncode (segmentOf (binlogStore steadyBinlog))
       (peer [''+OK'']) 0 0 18446744073709551615
     = Some (Inr 11, \<lparr>written = [sentFrame plainEncode 0 steadyBinlog], writeResults = [],
                       readResults = []\<rparr>)"
    by code_simp
  have lt: "(11 :: 64 word) < 18446744073709551615" by (simp add: word_less_nat_alt)
  have before: "entryPos 0 0
     (setEntry 0 0 (Some (dispatched 18446744073709551615 (peer [''+OK'']) 0)) noEntries)
     = Some 18446744073709551615"
    by (simp add: entryPos_def pushStatus_setEntry dispatched_def newMPovStatus_def)
  have after: "map_option (entryPos 0 0)
        (masterPushRoutine plainEncode (segmentOf (binlogStore steadyBinlog)) 0 0 0 0
           (setEntry 0 0 (Some (dispatched 18446744073709551615 (peer [''+OK'']) 0)) noEntries))
     = Some (Some 11)"
    by (simp add: masterPushRoutine_def pushGuard_def pushStatus_setEntry setEntry_def
          entryPos_def dispatched_def newMPovStatus_def send)
  from before after lt show ?thesis by blast
qed

lemma masterPushRoutine_entry:
  assumes entry: "pushStatus m (unat sid) cid = Some e"
    and push: "masterPushRoutine enc gi now0 now1 sid cid m = Some m'"
    and entry': "pushStatus m' (unat sid) cid = Some e'"
  shows "\<exists>c. masterSendBinlog enc gi (client e) sid (dstStoreId e) (binlogPos e)
               = Some (Inr (binlogPos e'), c)
             \<and> client e' = c \<and> isRunning e \<and> \<not> isRunning e'"
  using assms
  by (auto simp: masterPushRoutine_def pushGuard_def pushStatus_setEntry setEntry_def
      split: option.splits sum.splits prod.splits if_splits)

text \<open>
  C7, amended. In a push iteration that starts from a position below \<open>2^64 - 1\<close>
  (written \<open>- 1\<close> here), against a cursor whose rows all have ids from the id it was
  opened at, the position of an entry that is still registered afterwards has not
  decreased: \<^verbatim>\<open>masterPushRoutine\<close> assigns it the value that
  \<^verbatim>\<open>masterSendBinlog\<close> returned, which is the snapshotted position or the id of
  a row read by the cursor opened at that position plus one.
\<close>

theorem push_never_lowers_position:
  assumes entry: "pushStatus m (unat sid) cid = Some e"
    and nowrap: "binlogPos e \<noteq> - 1"
    and cursor: "\<forall>store txn. gi sid = Some store \<longrightarrow> createTransaction store = Inr txn \<longrightarrow>
                   (\<forall>r \<in> set (fst (txn (binlogPos e + 1))). binlogPos e + 1 \<le> txnId r)"
    and push: "masterPushRoutine enc gi now0 now1 sid cid m = Some m'"
    and entry': "pushStatus m' (unat sid) cid = Some e'"
  shows "binlogPos e \<le> binlogPos e'
         \<and> (\<exists>c. masterSendBinlog enc gi (client e) sid (dstStoreId e) (binlogPos e)
                  = Some (Inr (binlogPos e'), c))"
proof -
  from masterPushRoutine_entry [OF entry push entry'] obtain c where
    send: "masterSendBinlog enc gi (client e) sid (dstStoreId e) (binlogPos e)
             = Some (Inr (binlogPos e'), c)"
    by blast
  from masterSendBinlog_success [OF send] obtain store txn binlogs where
    h: "gi sid = Some store" "createTransaction store = Inr txn"
       "batchLoop (fst (txn (binlogPos e + 1))) (snd (txn (binlogPos e + 1))) [] 0 0 0
          = Inr binlogs"
       "binlogPos e' = (if binlogs = [] then binlogPos e else txnId (last binlogs))"
    by blast
  have "binlogPos e \<le> binlogPos e'"
  proof (cases "binlogs = []")
    case True
    with h(4) show ?thesis by simp
  next
    case False
    then have "last binlogs \<in> set (fst (txn (binlogPos e + 1)))"
      using batchLoop_subset [OF h(3)] by auto
    with cursor h(1,2) have "binlogPos e + 1 \<le> txnId (last binlogs)" by blast
    with nowrap have "binlogPos e < txnId (last binlogs)" by (simp add: inc_less_eq_iff)
    with h(4) False show ?thesis by simp
  qed
  with send show ?thesis by blast
qed

text \<open>The theorem at scenario A: the entry goes from position 9 to position 11.\<close>

theorem push_never_lowers_position_witness:
  "entryPos 0 0 (setEntry 0 0 (Some (dispatched 9 (peer [''+OK'']) 0)) noEntries) = Some 9
   \<and> map_option (entryPos 0 0)
        (masterPushRoutine plainEncode (segmentOf (binlogStore steadyBinlog)) 0 0 0 0
           (setEntry 0 0 (Some (dispatched 9 (peer [''+OK'']) 0)) noEntries)) = Some (Some 11)
   \<and> (9 :: 64 word) \<le> 11"
proof -
  let ?e = "dispatched 9 (peer [''+OK'']) 0"
  let ?m = "setEntry 0 0 (Some ?e) noEntries"
  let ?e' = "\<lparr>isRunning = False, dstStoreId = 0, binlogPos = 11, nextSchedTime = 0,
              client = \<lparr>written = [sentFrame plainEncode 0 steadyBinlog], writeResults = [],
                         readResults = []\<rparr>,
              clientId = 0\<rparr>"
  let ?m' = "setEntry 0 0 (Some ?e') noEntries"
  have entry: "pushStatus ?m (unat (0 :: 32 word)) 0 = Some ?e"
    by (simp add: pushStatus_setEntry)
  have nowrap: "binlogPos ?e \<noteq> - 1"
    by (simp add: dispatched_def newMPovStatus_def)
  have cursor: "\<forall>store txn. segmentOf (binlogStore steadyBinlog) 0 = Some store \<longrightarrow>
      createTransaction store = Inr txn \<longrightarrow>
      (\<forall>r \<in> set (fst (txn (binlogPos ?e + 1))). binlogPos ?e + 1 \<le> txnId r)"
    by (auto simp: segmentOf_def binlogStore_def createBinlogCursor_def)
  have push: "masterPushRoutine plainEncode (segmentOf (binlogStore steadyBinlog)) 0 0 0 0 ?m
      = Some ?m'"
    by (rule steady_push)
  have entry': "pushStatus ?m' (unat (0 :: 32 word)) 0 = Some ?e'"
    by (simp add: pushStatus_setEntry)
  from push_never_lowers_position [OF entry nowrap cursor push entry']
  have le: "binlogPos ?e \<le> binlogPos ?e'" by blast
  have before: "entryPos 0 0 ?m = Some 9"
    by (simp add: entryPos_def pushStatus_setEntry dispatched_def newMPovStatus_def)
  have after: "map_option (entryPos 0 0)
        (masterPushRoutine plainEncode (segmentOf (binlogStore steadyBinlog)) 0 0 0 0 ?m)
      = Some (Some 11)"
    unfolding push by (simp add: entryPos_def pushStatus_setEntry)
  from le have "(9 :: 64 word) \<le> 11" by (simp add: dispatched_def newMPovStatus_def)
  with before after show ?thesis by blast
qed

subsection \<open>Successive push iterations\<close>

lemma word64_succ_nonzero: "(pos :: 64 word) \<noteq> - 1 \<Longrightarrow> pos + 1 \<noteq> 0"
  by (metis add.commute add_eq_0_iff)

lemma cursor_after_batch:
  assumes srt: "sorted (map txnId binlog)"
    and ids: "\<forall>r \<in> set binlog. txnId r \<noteq> - 1"
    and start: "pos \<noteq> - 1"
    and loop: "batchLoop (fst (createBinlogCursor binlog (pos + 1)))
                 (snd (createBinlogCursor binlog (pos + 1))) [] 0 0 0 = Inr b"
    and newPos: "newPos = (if b = [] then pos else txnId (last b))"
  shows "b @ fst (createBinlogCursor binlog (newPos + 1)) = fst (createBinlogCursor binlog (pos + 1))
         \<and> newPos \<noteq> - 1 \<and> pos \<le> newPos"
proof (cases "b = []")
  case True
  with newPos start show ?thesis by simp
next
  case False
  define rows where "rows = filter (\<lambda>r. pos + 1 \<le> txnId r) binlog"
  define t where "t = txnId (last b)"
  have low: "\<forall>r \<in> set rows. pos + 1 \<le> txnId r" by (simp add: rows_def)
  have "0 < pos + 1" using word64_succ_nonzero [OF start] by (simp add: word_greater_zero_iff)
  with low have nz: "\<forall>r \<in> set rows. txnId r \<noteq> 0" by auto
  from loop have loop': "batchLoop rows exhausted [] 0 0 0 = Inr b"
    by (simp add: createBinlogCursor_def rows_def)
  from batchLoop_nonzero_boundary [OF nz loop'] obtain rest where rest: "rows = b @ rest"
    "b \<noteq> [] \<and> rest \<noteq> [] \<longrightarrow> txnId (last b) \<noteq> txnId (hd rest)"
    by blast
  have srows: "sorted (map txnId rows)" using srt by (simp add: rows_def sorted_filter)
  then have sep: "\<forall>x \<in> set b. \<forall>y \<in> set rest. txnId x < txnId y"
    using sorted_boundary_separates [of b rest] rest by simp
  have lastb: "last b \<in> set rows" using False rest(1) by simp
  then have t_low: "pos + 1 \<le> t" using low by (simp add: t_def)
  have "last b \<in> set binlog" using lastb by (simp add: rows_def)
  then have t_top: "t \<noteq> - 1" using ids by (simp add: t_def)
  have succ: "\<And>y. (t + 1 \<le> y) = (t < y)" using t_top by (simp add: inc_less_eq_iff)
  have sb: "sorted (map txnId b)" using srows rest(1) by (simp add: sorted_append)
  have b_le: "\<forall>x \<in> set b. txnId x \<le> t"
    using sorted_le_last [OF sb] False by (simp add: t_def last_map)
  have rest_gt: "\<forall>y \<in> set rest. t < txnId y"
    using sep False by (simp add: t_def)
  have "filter (\<lambda>r. t + 1 \<le> txnId r) binlog = filter (\<lambda>r. t + 1 \<le> txnId r) rows"
  proof -
    have "filter (\<lambda>r. t + 1 \<le> txnId r) rows
        = filter (\<lambda>r. pos + 1 \<le> txnId r \<and> t + 1 \<le> txnId r) binlog"
      by (simp add: rows_def)
    also have "\<dots> = filter (\<lambda>r. t + 1 \<le> txnId r) binlog"
    proof (rule filter_cong [OF refl])
      fix r assume "r \<in> set binlog"
      show "(pos + 1 \<le> txnId r \<and> t + 1 \<le> txnId r) = (t + 1 \<le> txnId r)"
        using t_low by (auto simp: succ)
    qed
    finally show ?thesis by simp
  qed
  also have "\<dots> = filter (\<lambda>r. t + 1 \<le> txnId r) b @ filter (\<lambda>r. t + 1 \<le> txnId r) rest"
    by (simp add: rest(1))
  also have "filter (\<lambda>r. t + 1 \<le> txnId r) b = []"
    using b_le by (auto simp: succ filter_empty_conv)
  also have "filter (\<lambda>r. t + 1 \<le> txnId r) rest = rest"
    using rest_gt by (simp add: succ)
  finally have "filter (\<lambda>r. t + 1 \<le> txnId r) binlog = rest" by simp
  moreover have "newPos = t" using newPos False by (simp add: t_def)
  moreover have "pos \<le> t"
    using t_low start by (metis inc_less_eq_iff order_less_imp_le)
  ultimately show ?thesis
    using rest(1) t_top by (simp add: createBinlogCursor_def rows_def)
qed

lemma send_then_cursor:
  assumes srt: "sorted (map txnId binlog)"
    and ids: "\<forall>r \<in> set binlog. txnId r \<noteq> - 1"
    and start: "pos \<noteq> - 1"
    and store: "gi sid = Some (binlogStore binlog)"
    and send: "masterSendBinlog enc gi c sid dst pos = Some (Inr newPos, c')"
  shows "\<exists>b. written c' = written c @ [sentFrame enc dst b]
           \<and> b @ fst (createBinlogCursor binlog (newPos + 1))
               = fst (createBinlogCursor binlog (pos + 1))
           \<and> newPos \<noteq> - 1"
proof -
  from masterSendBinlog_success [OF send] store obtain b where
    b: "batchLoop (fst (createBinlogCursor binlog (pos + 1)))
          (snd (createBinlogCursor binlog (pos + 1))) [] 0 0 0 = Inr b"
       "written c' = written c @ [sentFrame enc dst b]"
       "newPos = (if b = [] then pos else txnId (last b))"
    by (auto simp: binlogStore_def)
  from cursor_after_batch [OF srt ids start b(1) b(3)] b(2) show ?thesis by blast
qed

lemma lastId_loop: "batchLoop lastIdBinlog exhausted [] 0 0 0 = Inr lastIdBinlog"
  by (simp add: lastIdBinlog_def Let_def suggestBatch_def suggestBytes_def exhausted_def
        word_le_nat_alt word_less_nat_alt)

lemma lastId_cursor:
  "createBinlogCursor lastIdBinlog (0 + 1) = (lastIdBinlog, exhausted)"
  "createBinlogCursor lastIdBinlog (18446744073709551615 + 1) = (lastIdBinlog, exhausted)"
  by (simp_all add: createBinlogCursor_def lastIdBinlog_def word_le_nat_alt)

text \<open>
  C9, as stated, at a binlog whose only row has transaction id \<open>2^64 - 1\<close> and a
  replica at position 0: the first iteration sends the row and returns its id, the
  next one opens its cursor at that id plus one, which is 0, and sends the row again.
\<close>

theorem last_id_is_sent_twice:
  "pushIterations plainEncode (segmentOf (binlogStore lastIdBinlog)) 0 0 2
     (peer [''+OK'', ''+OK'']) 0
   = Some (18446744073709551615,
           \<lparr>written = [sentFrame plainEncode 0 lastIdBinlog, sentFrame plainEncode 0 lastIdBinlog],
              writeResults = [], readResults = []\<rparr>)"
proof -
  have last: "lastIdBinlog \<noteq> []" "txnId (last lastIdBinlog) = 18446744073709551615"
    by (simp_all add: lastIdBinlog_def)
  have one: "masterSendBinlog plainEncode (segmentOf (binlogStore lastIdBinlog))
        (peer [''+OK'', ''+OK'']) 0 0 0
      = Some (Inr 18446744073709551615,
              \<lparr>written = [sentFrame plainEncode 0 lastIdBinlog], writeResults = [],
                 readResults = [Inr ''+OK'']\<rparr>)"
    using send_from_binlogStore [OF lastId_cursor(1) lastId_loop,
        of plainEncode "[]" "[Inr ''+OK'']" 0 0] last
    by (simp add: peer_def)
  have two: "masterSendBinlog plainEncode (segmentOf (binlogStore lastIdBinlog))
        \<lparr>written = [sentFrame plainEncode 0 lastIdBinlog], writeResults = [],
           readResults = [Inr ''+OK'']\<rparr> 0 0 18446744073709551615
      = Some (Inr 18446744073709551615,
              \<lparr>written = [sentFrame plainEncode 0 lastIdBinlog,
                           sentFrame plainEncode 0 lastIdBinlog],
                 writeResults = [], readResults = []\<rparr>)"
    using send_from_binlogStore [OF lastId_cursor(2) lastId_loop,
        of plainEncode "[sentFrame plainEncode 0 lastIdBinlog]" "[]" 0 0] last
    by simp
  show ?thesis
    by (simp add: numeral_2_eq_2 one two)
qed

text \<open>
  C9, amended. Let the binlog be in the order of its transaction ids, and let the
  starting position and every transaction id be below \<open>2^64 - 1\<close>, so that no
  position plus one wraps. Then for every sequence of successful push iterations
  against that binlog, the batches written, one frame per iteration, are consecutive
  pieces of the rows after the starting position: joined together and followed by the
  rows that a cursor opened at the final position plus one delivers, they are exactly
  the rows that the first cursor delivers. A row that closed a batch is thus the
  first row of the next cursor, and no row is skipped or sent twice.
\<close>

theorem pushes_send_each_row_once:
  assumes srt: "sorted (map txnId binlog)"
    and ids: "\<forall>r \<in> set binlog. txnId r \<noteq> - 1"
    and start: "pos \<noteq> - 1"
    and store: "gi sid = Some (binlogStore binlog)"
    and run: "pushIterations enc gi sid dst n c pos = Some (pos', c')"
  shows "\<exists>batches. length batches = n
           \<and> written c' = written c @ map (sentFrame enc dst) batches
           \<and> concat batches @ fst (createBinlogCursor binlog (pos' + 1))
               = fst (createBinlogCursor binlog (pos + 1))"
  using start run
proof (induction n arbitrary: c pos)
  case 0
  then show ?case by simp
next
  case (Suc n)
  from Suc.prems(2) obtain newPos c1 where
    send: "masterSendBinlog enc gi c sid dst pos = Some (Inr newPos, c1)"
    and rest: "pushIterations enc gi sid dst n c1 newPos = Some (pos', c')"
    by (auto split: option.splits sum.splits prod.splits)
  from send_then_cursor [OF srt ids Suc.prems(1) store send] obtain b where
    b: "written c1 = written c @ [sentFrame enc dst b]"
       "b @ fst (createBinlogCursor binlog (newPos + 1))
          = fst (createBinlogCursor binlog (pos + 1))"
       "newPos \<noteq> - 1"
    by blast
  from Suc.IH [OF b(3) rest] obtain batches where
    bs: "length batches = n"
        "written c' = written c1 @ map (sentFrame enc dst) batches"
        "concat batches @ fst (createBinlogCursor binlog (pos' + 1))
           = fst (createBinlogCursor binlog (newPos + 1))"
    by blast
  have "length (b # batches) = Suc n" using bs(1) by simp
  moreover have "written c' = written c @ map (sentFrame enc dst) (b # batches)"
    using b(1) bs(2) by simp
  moreover have "concat (b # batches) @ fst (createBinlogCursor binlog (pos' + 1))
      = fst (createBinlogCursor binlog (pos + 1))"
    using b(2) bs(3) by simp
  ultimately show ?case by blast
qed

text \<open>
  The theorem at scenario C, two iterations: 63 rows, then the remaining 7, and
  nothing is left after position 70.
\<close>

theorem pushes_send_each_row_once_witness:
  "pushIterations plainEncode (segmentOf (binlogStore (singleRowTxns 70))) 0 0 2
     (peer [''+OK'', ''+OK'']) 0
   = Some (70,
           \<lparr>written = [sentFrame plainEncode 0 (singleRowTxns 63),
                        sentFrame plainEncode 0 (drop 63 (singleRowTxns 70))],
              writeResults = [], readResults = []\<rparr>)
   \<and> (\<exists>batches. length batches = 2
         \<and> [sentFrame plainEncode 0 (singleRowTxns 63),
             sentFrame plainEncode 0 (drop 63 (singleRowTxns 70))]
            = map (sentFrame plainEncode 0) batches
         \<and> concat batches = singleRowTxns 70)"
proof -
  have srt: "sorted (map txnId (singleRowTxns 70))"
    by code_simp
  have ids: "\<forall>r \<in> set (singleRowTxns 70). txnId r \<noteq> - 1"
    by code_simp
  have start: "(0 :: 64 word) \<noteq> - 1"
    by simp
  have store: "segmentOf (binlogStore (singleRowTxns 70)) 0 = Some (binlogStore (singleRowTxns 70))"
    by (simp add: segmentOf_def)
  have cur1: "createBinlogCursor (singleRowTxns 70) (0 + 1) = (singleRowTxns 70, exhausted)"
    by code_simp
  have loop1: "batchLoop (singleRowTxns 70) exhausted [] 0 0 0 = Inr (singleRowTxns 63)"
    by code_simp
  have last1: "singleRowTxns 63 \<noteq> []" "txnId (last (singleRowTxns 63)) = 63"
    by code_simp+
  have cur2: "createBinlogCursor (singleRowTxns 70) (63 + 1)
      = (drop 63 (singleRowTxns 70), exhausted)"
    by code_simp
  have loop2: "batchLoop (drop 63 (singleRowTxns 70)) exhausted [] 0 0 0
      = Inr (drop 63 (singleRowTxns 70))"
    by code_simp
  have last2: "drop 63 (singleRowTxns 70) \<noteq> []"
    "txnId (last (drop 63 (singleRowTxns 70))) = 70"
    by code_simp+
  have cur3: "fst (createBinlogCursor (singleRowTxns 70) (70 + 1)) = []"
    by code_simp
  have one: "masterSendBinlog plainEncode (segmentOf (binlogStore (singleRowTxns 70)))
        (peer [''+OK'', ''+OK'']) 0 0 0
      = Some (Inr 63,
              \<lparr>written = [sentFrame plainEncode 0 (singleRowTxns 63)], writeResults = [],
                 readResults = [Inr ''+OK'']\<rparr>)"
    using send_from_binlogStore [OF cur1 loop1, of plainEncode "[]" "[Inr ''+OK'']" 0 0] last1
    by (simp add: peer_def)
  have two: "masterSendBinlog plainEncode (segmentOf (binlogStore (singleRowTxns 70)))
        \<lparr>written = [sentFrame plainEncode 0 (singleRowTxns 63)], writeResults = [],
           readResults = [Inr ''+OK'']\<rparr> 0 0 63
      = Some (Inr 70,
              \<lparr>written = [sentFrame plainEncode 0 (singleRowTxns 63),
                           sentFrame plainEncode 0 (drop 63 (singleRowTxns 70))],
                 writeResults = [], readResults = []\<rparr>)"
    using send_from_binlogStore [OF cur2 loop2,
        of plainEncode "[sentFrame plainEncode 0 (singleRowTxns 63)]" "[]" 0 0] last2
    by simp
  have run: "pushIterations plainEncode (segmentOf (binlogStore (singleRowTxns 70))) 0 0 2
     (peer [''+OK'', ''+OK'']) 0
   = Some (70,
           \<lparr>written = [sentFrame plainEncode 0 (singleRowTxns 63),
                        sentFrame plainEncode 0 (drop 63 (singleRowTxns 70))],
              writeResults = [], readResults = []\<rparr>)"
    by (simp add: numeral_2_eq_2 one two)
  from pushes_send_each_row_once [OF srt ids start store run]
  have "\<exists>batches. length batches = 2
         \<and> [sentFrame plainEncode 0 (singleRowTxns 63),
             sentFrame plainEncode 0 (drop 63 (singleRowTxns 70))]
            = map (sentFrame plainEncode 0) batches
         \<and> concat batches = singleRowTxns 70"
    unfolding cur1 cur3 by (simp add: peer_def)
  with run show ?thesis by blast
qed

subsection \<open>Registration\<close>

lemma registerIncrSync_accepts:
  assumes "registrationConditions stoul N others sock a b c m"
  shows "\<exists>storeId dstId pos sock'.
           parseOpts stoul a b c = Inr (storeId, dstId, pos)
           \<and> written sock' = written sock @ [WriteLine ''+OK'' 1]
           \<and> registerIncrSync stoul N now others sock a b c m
               = (setEntry (unat storeId) (clientIdGen (others m))
                    (Some \<lparr>isRunning = False, dstStoreId = ucast dstId, binlogPos = pos,
                           nextSchedTime = now, client = sock',
                           clientId = clientIdGen (others m)\<rparr>)
                    ((others m)\<lparr>clientIdGen := clientIdGen (others m) + 1\<rparr>),
                  sock')"
  using assms
  by (auto simp: registrationConditions_def registerIncrSync_def newMPovStatus_def Let_def
        writeLine_def nextWrite_def readLine_def not_less
      split: sum.splits prod.splits list.splits)

lemma registerIncrSync_rejects:
  assumes "\<not> registrationConditions stoul N others sock a b c m"
  shows "fst (registerIncrSync stoul N now others sock a b c m) = m
         \<or> fst (registerIncrSync stoul N now others sock a b c m) = others m"
  using assms
  by (auto simp: registrationConditions_def registerIncrSync_def Let_def
        writeLine_def nextWrite_def readLine_def not_less not_le
      split: sum.splits prod.splits list.splits)

lemma registerIncrSync_stale:
  assumes "parseOpts stoul a b c = Inr (storeId, dstId, pos)"
    and "storeId < N" "dstId < N" "pos < firstBinlogId m (unat storeId)"
  shows "fst (registerIncrSync stoul N now others sock a b c m) = m
         \<and> written (snd (registerIncrSync stoul N now others sock a b c m))
             = written sock @ [WriteLine ''-ERR invalid binlogPos'' 1]"
  using assms
  by (auto simp: registerIncrSync_def Let_def writeLine_def nextWrite_def not_less not_le
      split: list.splits)

text \<open>
  C6. \<^verbatim>\<open>registerIncrSync\<close> inserts an entry into \<^verbatim>\<open>pushStatus[storeId]\<close>
  exactly under the registration conditions (the three arguments parse, both store
  ids are below \<open>INSTANCE_NUM\<close>, \<^verbatim>\<open>firstBinlogId[storeId]\<close> is at most the
  requested position at the pre-check and at the re-check under the mutex, and the
  slave answered \<^verbatim>\<open>+PONG\<close> to the master's \<^verbatim>\<open>+OK\<close>). Under them the tables
  gain one entry under a fresh client id, with \<^verbatim>\<open>isRunning\<close> false and
  \<^verbatim>\<open>binlogPos\<close> the requested position, owning the socket on which
  \<^verbatim>\<open>+OK\<close> was written; otherwise the routine leaves the tables as it found them
  (as they were, or as the other threads left them), so that without interference the
  tables change if and only if the conditions hold. When \<^verbatim>\<open>firstBinlogId\<close> is
  above the position at the pre-check, the master writes
  \<^verbatim>\<open>-ERR invalid binlogPos\<close> and no entry is created.
\<close>

theorem registerIncrSync_registers_iff:
  "(registrationConditions stoul N others sock a b c m \<longrightarrow>
      (\<exists>storeId dstId pos sock'.
         parseOpts stoul a b c = Inr (storeId, dstId, pos)
         \<and> written sock' = written sock @ [WriteLine ''+OK'' 1]
         \<and> registerIncrSync stoul N now others sock a b c m
             = (setEntry (unat storeId) (clientIdGen (others m))
                  (Some \<lparr>isRunning = False, dstStoreId = ucast dstId, binlogPos = pos,
                         nextSchedTime = now, client = sock',
                         clientId = clientIdGen (others m)\<rparr>)
                  ((others m)\<lparr>clientIdGen := clientIdGen (others m) + 1\<rparr>),
                sock')))
   \<and> (\<not> registrationConditions stoul N others sock a b c m \<longrightarrow>
        fst (registerIncrSync stoul N now others sock a b c m) = m
        \<or> fst (registerIncrSync stoul N now others sock a b c m) = others m)
   \<and> (others m = m \<longrightarrow>
        registrationConditions stoul N others sock a b c m
        = (fst (registerIncrSync stoul N now others sock a b c m) \<noteq> m))
   \<and> (\<forall>storeId dstId pos.
        parseOpts stoul a b c = Inr (storeId, dstId, pos) \<longrightarrow> storeId < N \<longrightarrow> dstId < N \<longrightarrow>
        pos < firstBinlogId m (unat storeId) \<longrightarrow>
        fst (registerIncrSync stoul N now others sock a b c m) = m
        \<and> written (snd (registerIncrSync stoul N now others sock a b c m))
            = written sock @ [WriteLine ''-ERR invalid binlogPos'' 1])"
proof (intro conjI impI allI)
  assume "registrationConditions stoul N others sock a b c m"
  then show "\<exists>storeId dstId pos sock'.
         parseOpts stoul a b c = Inr (storeId, dstId, pos)
         \<and> written sock' = written sock @ [WriteLine ''+OK'' 1]
         \<and> registerIncrSync stoul N now others sock a b c m
             = (setEntry (unat storeId) (clientIdGen (others m))
                  (Some \<lparr>isRunning = False, dstStoreId = ucast dstId, binlogPos = pos,
                         nextSchedTime = now, client = sock',
                         clientId = clientIdGen (others m)\<rparr>)
                  ((others m)\<lparr>clientIdGen := clientIdGen (others m) + 1\<rparr>),
                sock')"
    by (rule registerIncrSync_accepts)
next
  assume "\<not> registrationConditions stoul N others sock a b c m"
  then show "fst (registerIncrSync stoul N now others sock a b c m) = m
        \<or> fst (registerIncrSync stoul N now others sock a b c m) = others m"
    by (rule registerIncrSync_rejects)
next
  assume same: "others m = m"
  show "registrationConditions stoul N others sock a b c m
        = (fst (registerIncrSync stoul N now others sock a b c m) \<noteq> m)"
  proof (cases "registrationConditions stoul N others sock a b c m")
    case True
    from registerIncrSync_accepts [OF True, of now]
    have "clientIdGen (fst (registerIncrSync stoul N now others sock a b c m))
        = clientIdGen (others m) + 1"
      by (auto simp: clientIdGen_setEntry)
    with same have "clientIdGen (fst (registerIncrSync stoul N now others sock a b c m))
        \<noteq> clientIdGen m"
      by simp
    then have "fst (registerIncrSync stoul N now others sock a b c m) \<noteq> m"
      by auto
    with True show ?thesis by simp
  next
    case False
    from registerIncrSync_rejects [OF False, of now] same False show ?thesis by auto
  qed
next
  fix storeId dstId pos
  assume "parseOpts stoul a b c = Inr (storeId, dstId, pos)" "storeId < N" "dstId < N"
    "pos < firstBinlogId m (unat storeId)"
  then show "fst (registerIncrSync stoul N now others sock a b c m) = m"
    and "written (snd (registerIncrSync stoul N now others sock a b c m))
            = written sock @ [WriteLine ''-ERR invalid binlogPos'' 1]"
    using registerIncrSync_stale [of stoul a b c storeId dstId pos N m now others sock] by simp_all
qed

text \<open>
  The theorem at scenario A (\<^verbatim>\<open>INCRSYNC 0 0 9\<close>, nothing truncated, the slave
  answers \<^verbatim>\<open>+PONG\<close>) and at scenario B (\<^verbatim>\<open>INCRSYNC 0 0 50\<close> when the
  binlog starts at 100).
\<close>

theorem registerIncrSync_registers_iff_witness:
  "registrationConditions scenarioStoul 10 id (peer [''+PONG'']) ''0'' ''0'' ''9'' noEntries
   \<and> fst (registerIncrSync scenarioStoul 10 5 id (peer [''+PONG'']) ''0'' ''0'' ''9'' noEntries)
       \<noteq> noEntries
   \<and> pushStatus
        (fst (registerIncrSync scenarioStoul 10 5 id (peer [''+PONG'']) ''0'' ''0'' ''9'' noEntries))
        0 0
       = Some \<lparr>isRunning = False, dstStoreId = 0, binlogPos = 9, nextSchedTime = 5,
                client = \<lparr>written = [WriteLine ''+OK'' 1], writeResults = [],
                           readResults = []\<rparr>,
                clientId = 0\<rparr>
   \<and> fst (registerIncrSync scenarioStoul 10 5 id (peer []) ''0'' ''0'' ''50'' staleTables)
       = staleTables
   \<and> written (snd (registerIncrSync scenarioStoul 10 5 id (peer []) ''0'' ''0'' ''50'' staleTables))
       = [WriteLine ''-ERR invalid binlogPos'' 1]"
proof -
  have conds: "registrationConditions scenarioStoul 10 id (peer [''+PONG''])
      ''0'' ''0'' ''9'' noEntries"
    by (simp add: registrationConditions_def parseOpts_def scenarioStoul_def noEntries_def
          peer_def word_less_nat_alt)
  have changed: "fst (registerIncrSync scenarioStoul 10 5 id (peer [''+PONG''])
      ''0'' ''0'' ''9'' noEntries) \<noteq> noEntries"
    using registerIncrSync_registers_iff
      [of scenarioStoul 10 id "peer [''+PONG'']" "''0''" "''0''" "''9''" noEntries 5] conds
    by simp
  have entry: "pushStatus
        (fst (registerIncrSync scenarioStoul 10 5 id (peer [''+PONG'']) ''0'' ''0'' ''9'' noEntries))
        0 0
       = Some \<lparr>isRunning = False, dstStoreId = 0, binlogPos = 9, nextSchedTime = 5,
                client = \<lparr>written = [WriteLine ''+OK'' 1], writeResults = [],
                           readResults = []\<rparr>,
                clientId = 0\<rparr>"
    by (simp add: registerIncrSync_def parseOpts_def scenarioStoul_def noEntries_def peer_def
          writeLine_def nextWrite_def readLine_def newMPovStatus_def setEntry_def Let_def
          word_le_nat_alt word_less_nat_alt)
  have parse: "parseOpts scenarioStoul ''0'' ''0'' ''50'' = Inr (0, 0, 50)"
    by (simp add: parseOpts_def scenarioStoul_def)
  have stale: "(50 :: 64 word) < firstBinlogId staleTables (unat (0 :: 64 word))"
    by (simp add: staleTables_def word_less_nat_alt)
  have small: "(0 :: 64 word) < 10"
    by simp
  from registerIncrSync_registers_iff
      [of scenarioStoul 10 id "peer []" "''0''" "''0''" "''50''" staleTables 5]
    parse stale small
  have rejected:
    "fst (registerIncrSync scenarioStoul 10 5 id (peer []) ''0'' ''0'' ''50'' staleTables)
       = staleTables
     \<and> written (snd (registerIncrSync scenarioStoul 10 5 id (peer []) ''0'' ''0'' ''50''
          staleTables))
       = written (peer []) @ [WriteLine ''-ERR invalid binlogPos'' 1]"
    by blast
  then have "written (snd (registerIncrSync scenarioStoul 10 5 id (peer []) ''0'' ''0'' ''50''
          staleTables))
       = [WriteLine ''-ERR invalid binlogPos'' 1]"
    by (simp add: peer_def)
  with conds changed entry rejected show ?thesis by blast
qed

subsection \<open>Full sync\<close>

lemma streamFile_exit:
  "fst (streamFile myfile remain c) \<in> {None, Some ReadFailed, Some BulkWriteFailed}"
proof (induction myfile remain c rule: streamFile.induct)
  case (1 myfile remain c)
  show ?case
    using "1.IH" by (subst streamFile.simps) auto
qed

lemma streamFiles_exit:
  "fst (streamFiles fs dir files c)
     \<in> {None, Some FnameWriteFailed, Some OpenFailed, Some ReadFailed, Some BulkWriteFailed}"
proof (induction files arbitrary: c)
  case Nil
  then show ?case by simp
next
  case (Cons fileInfo rest)
  obtain s c1 where w: "writeLine (fst fileInfo) 1 c = (s, c1)"
    by (cases "writeLine (fst fileInfo) 1 c") auto
  show ?case
  proof (cases "ok s")
    case False
    with w show ?thesis by simp
  next
    case True
    show ?thesis
    proof (cases "fs (dir @ ''/'' @ fst fileInfo)")
      case None
      with w True show ?thesis by simp
    next
      case (Some myfile)
      obtain r c2 where f: "streamFile myfile (unat (snd fileInfo)) c1 = (r, c2)"
        by (cases "streamFile myfile (unat (snd fileInfo)) c1") auto
      with streamFile_exit [of myfile "unat (snd fileInfo)" c1]
      have r: "r \<in> {None, Some ReadFailed, Some BulkWriteFailed}" by simp
      show ?thesis
      proof (cases r)
        case None
        with w True Some f Cons.IH [of c2] show ?thesis by simp
      next
        case (Some ex)
        with r w True \<open>fs (dir @ ''/'' @ fst fileInfo) = Some myfile\<close> f show ?thesis by auto
      qed
    qed
  qed
qed

lemma streamBackup_exit:
  "fst (streamBackup json fs store bkInfo c) \<notin> {StoreNotRunning, BackupFailed}"
proof -
  obtain s c1 where w: "writeLine (json bkInfo) 1 c = (s, c1)"
    by (cases "writeLine (json bkInfo) 1 c") auto
  obtain r c2 where f: "streamFiles fs (backupDir store) bkInfo c1 = (r, c2)"
    by (cases "streamFiles fs (backupDir store) bkInfo c1") auto
  with streamFiles_exit [of fs "backupDir store" bkInfo c1]
  have r: "r \<in> {None, Some FnameWriteFailed, Some OpenFailed, Some ReadFailed,
                  Some BulkWriteFailed}"
    by simp
  show ?thesis
  proof (cases "ok s")
    case False
    with w show ?thesis by (simp add: streamBackup_def)
  next
    case True
    show ?thesis
    proof (cases r)
      case None
      with w f True show ?thesis
        by (simp add: streamBackup_def split: prod.splits sum.splits)
    next
      case (Some ex)
      with r w f True show ?thesis by (auto simp: streamBackup_def)
    qed
  qed
qed

text \<open>
  C8. For a store that exists, \<^verbatim>\<open>supplyFullSyncRoutine\<close> returns, and it calls
  \<^verbatim>\<open>releaseBackup()\<close> once on every exit taken after \<^verbatim>\<open>backup()\<close> has
  succeeded (the manifest write failed, a file name write failed, a file could not be
  opened or read, a chunk write failed, the terminal line was read or could not be
  read) and not at all on the two exits before. Those later exits are taken exactly
  when the store is running and \<^verbatim>\<open>backup()\<close> succeeded. When \<^verbatim>\<open>backup()\<close>
  fails, the routine writes the one line \<^verbatim>\<open>-ERR backup failed:\<close> followed by the
  status, and nothing else.
\<close>

theorem supplyFullSyncRoutine_releases_backup:
  assumes "getInstanceById storeId = Some store"
  shows "\<exists>ex c' k.
           supplyFullSyncRoutine toString json fs getInstanceById c storeId = Some (ex, c', k)
           \<and> k = (if ex = StoreNotRunning \<or> ex = BackupFailed then 0 else 1)
           \<and> ((ex \<noteq> StoreNotRunning \<and> ex \<noteq> BackupFailed)
                = (storeIsRunning store \<and> (\<exists>bkInfo. backup store = Inr bkInfo)))
           \<and> (storeIsRunning store \<longrightarrow>
                (\<forall>st. backup store = Inl st \<longrightarrow>
                   ex = BackupFailed
                   \<and> written c'
                       = written c @ [WriteLine (''-ERR backup failed:'' @ toString st) 1]))"
proof (cases "storeIsRunning store")
  case False
  with assms show ?thesis by (simp add: supplyFullSyncRoutine_def)
next
  case True
  show ?thesis
  proof (cases "backup store")
    case (Inl st)
    with True assms show ?thesis
      by (simp add: supplyFullSyncRoutine_def writeLine_def nextWrite_def split: list.splits)
  next
    case (Inr bkInfo)
    obtain ex c1 where body: "streamBackup json fs store bkInfo c = (ex, c1)"
      by (cases "streamBackup json fs store bkInfo c") auto
    with streamBackup_exit [of json fs store bkInfo c]
    have "ex \<noteq> StoreNotRunning" "ex \<noteq> BackupFailed" by auto
    with True Inr assms body show ?thesis
      by (simp add: supplyFullSyncRoutine_def)
  qed
qed

lemma manifest_line:
  "manifestJson [(''MANIFEST'', 12), (''000001.sst'', 4096)]
     = CHR ''{'' # CHR 0x22 # ''MANIFEST'' @ CHR 0x22 # '':12,'' @ CHR 0x22 # ''000001.sst'' @ CHR 0x22 # '':4096}''"
  by code_simp

lemma stream_whole:
  "length myfile = n \<Longrightarrow> 0 < n \<Longrightarrow> n \<le> readBufCapacity \<Longrightarrow> writeResults c = [] \<Longrightarrow>
   streamFile myfile n c = (None, c\<lparr>written := written c @ [WriteData myfile 1]\<rparr>)"
  by (subst streamFile.simps, subst streamFile.simps)
     (simp add: writeData_def nextWrite_def ok_def okStatus_def min_def)

text \<open>
  Scenario E: the manifest line, then each file's name and bytes, then the slave's
  terminal line is read, and the backup is released.
\<close>

lemma full_sync_happy:
  "supplyFullSyncRoutine msg manifestJson backupFiles (segmentOf backupStore) (peer [''bye'']) 0
     = Some (ReplyRead,
             \<lparr>written =
                [WriteLine (manifestJson [(''MANIFEST'', 12), (''000001.sst'', 4096)]) 1,
                 WriteLine ''MANIFEST'' 1, WriteData (replicate 12 (CHR ''m'')) 1,
                 WriteLine ''000001.sst'' 1, WriteData (replicate 4096 (CHR ''s'')) 1],
              writeResults = [], readResults = []\<rparr>,
             1)"
  by (simp add: supplyFullSyncRoutine_def segmentOf_def backupStore_def streamBackup_def
        backupFiles_def peer_def writeLine_def nextWrite_def readLine_def ok_def okStatus_def
        stream_whole readBufCapacity_def)

text \<open>
  The theorem at the store of scenario E, for a peer to which the first write fails:
  the routine is left early, and the backup is still released once.
\<close>

theorem supplyFullSyncRoutine_releases_backup_witness:
  "supplyFullSyncRoutine msg manifestJson backupFiles (segmentOf backupStore) (peer [''bye'']) 0
     = Some (ReplyRead,
             \<lparr>written =
                [WriteLine (manifestJson [(''MANIFEST'', 12), (''000001.sst'', 4096)]) 1,
                 WriteLine ''MANIFEST'' 1, WriteData (replicate 12 (CHR ''m'')) 1,
                 WriteLine ''000001.sst'' 1, WriteData (replicate 4096 (CHR ''s'')) 1],
              writeResults = [], readResults = []\<rparr>,
             1)
   \<and> (\<exists>ex c'.
         supplyFullSyncRoutine msg manifestJson backupFiles (segmentOf backupStore)
           \<lparr>written = [], writeResults = [\<lparr>code = ERR_NETWORK, msg = ''reset''\<rparr>],
              readResults = []\<rparr> 0
         = Some (ex, c', 1))"
proof -
  have store: "segmentOf backupStore 0 = Some backupStore"
    by (simp add: segmentOf_def)
  have ready: "storeIsRunning backupStore"
    "backup backupStore = Inr [(''MANIFEST'', 12), (''000001.sst'', 4096)]"
    by (simp_all add: backupStore_def)
  from supplyFullSyncRoutine_releases_backup
      [where getInstanceById = "segmentOf backupStore" and storeId = 0 and store = backupStore
         and toString = msg and json = manifestJson and fs = backupFiles
         and c = "\<lparr>written = [], writeResults = [\<lparr>code = ERR_NETWORK, msg = ''reset''\<rparr>],
                   readResults = []\<rparr>"]
    store
  obtain ex c' k where run:
    "supplyFullSyncRoutine msg manifestJson backupFiles (segmentOf backupStore)
           \<lparr>written = [], writeResults = [\<lparr>code = ERR_NETWORK, msg = ''reset''\<rparr>],
              readResults = []\<rparr> 0
         = Some (ex, c', k)"
    and k: "k = (if ex = StoreNotRunning \<or> ex = BackupFailed then 0 else 1)"
    and ex: "(ex \<noteq> StoreNotRunning \<and> ex \<noteq> BackupFailed)
                = (storeIsRunning backupStore \<and> (\<exists>bkInfo. backup backupStore = Inr bkInfo))"
    by blast
  from ex ready have "ex \<noteq> StoreNotRunning \<and> ex \<noteq> BackupFailed" by simp
  with k have "k = 1" by simp
  with run have "\<exists>ex c'.
         supplyFullSyncRoutine msg manifestJson backupFiles (segmentOf backupStore)
           \<lparr>written = [], writeResults = [\<lparr>code = ERR_NETWORK, msg = ''reset''\<rparr>],
              readResults = []\<rparr> 0
         = Some (ex, c', 1)"
    by blast
  with full_sync_happy show ?thesis by blast
qed


end
